theory Spec2Isabelle
  imports Main "HOL-Library.Word" "HOL-Library.Signed_Division"
begin

section \<open>The Hexagony interpreter\<close>

text \<open>
  The repository holds two versions of the interpreter: \<^verbatim>\<open>src/src/hexagony.c\<close> and
  \<^verbatim>\<open>src/hexagony.c\<close>. The functions \<^verbatim>\<open>modulo\<close>, \<^verbatim>\<open>axial_to_index\<close>, \<^verbatim>\<open>axial_to_mem_index\<close>,
  \<^verbatim>\<open>realloc_memory\<close>, \<^verbatim>\<open>get_memory_cell\<close> and \<^verbatim>\<open>get_memory_edge\<close> compute the same in both
  files and are embedded once. Where the two files differ (\<^verbatim>\<open>get_neighbor\<close>, \<^verbatim>\<open>move_mp\<close>, the
  instruction dispatch and the initial memory pointer of \<^verbatim>\<open>main\<close>), the definition taken from
  \<^verbatim>\<open>src/src/hexagony.c\<close> keeps the source's name and the one taken from \<^verbatim>\<open>src/hexagony.c\<close>
  carries the suffix \<open>_top\<close>.

  The C implementation modelled is the usual one for this program: gcc or clang with a
  64-bit \<^verbatim>\<open>long\<close> and a 32-bit \<^verbatim>\<open>int\<close>. There \<^verbatim>\<open>enum axis\<close> and \<^verbatim>\<open>enum direction\<close>, which have
  no negative enumerator, have the type \<^verbatim>\<open>unsigned int\<close>, and \<^verbatim>\<open>enum neighbor\<close> has the type
  \<^verbatim>\<open>int\<close>.

  C's \<^verbatim>\<open>long\<close>, \<^verbatim>\<open>ssize_t\<close> and \<^verbatim>\<open>size_t\<close> values (coordinates, ring counts, indices) are
  modelled as unbounded \<open>int\<close> and \<open>nat\<close>: the theorems about them speak of runs in which
  no 64-bit coordinate overflows. A memory edge is a C \<^verbatim>\<open>int\<close>, modelled as a \<open>32 word\<close>
  whose arithmetic wraps and whose sign is read with \<open>sint\<close>. C's \<^verbatim>\<open>%\<close> truncates towards
  zero: it is \<open>smod\<close>. The source's \<^verbatim>\<open>modulo\<close> is named \<open>modulo_long\<close> here.
\<close>

subsection \<open>Enumerations and structures\<close>

datatype axis = X | Y | Z

datatype direction = NW | NE | E | SE | SW | W

text \<open>\<^verbatim>\<open>enum neighbor { LEFT = -1, RIGHT = 1 }\<close>\<close>

datatype neighbor = LEFT | RIGHT

text \<open>The anonymous \<^verbatim>\<open>enum { IN, OUT }\<close> of \<^verbatim>\<open>struct memory_pointer\<close>.\<close>

datatype orientation = IN | OUT

fun axis_val :: "axis \<Rightarrow> int" where
  "axis_val X = 0"
| "axis_val Y = 1"
| "axis_val Z = 2"

fun neighbor_val :: "neighbor \<Rightarrow> int" where
  "neighbor_val LEFT = -1"
| "neighbor_val RIGHT = 1"

text \<open>
  The conversion of a \<^verbatim>\<open>long\<close> to \<^verbatim>\<open>enum axis\<close>. Only the values 0, 1 and 2 name an
  enumerator; every conversion in the source is applied to \<^verbatim>\<open>modulo(_, 3)\<close>.
\<close>

definition axis_of :: "int \<Rightarrow> axis" where
  "axis_of n = (if n = 0 then X else if n = 1 then Y else Z)"

record memory_pointer =
  mp_p :: int
  mp_q :: int
  mp_axis :: axis
  mp_direction :: orientation

subsection \<open>Coordinate algebra\<close>

text \<open>
  \<^verbatim>\<open>long modulo(long a, long b) {
      const long result = a % labs(b);
      return (result >= 0 ? result : result + b) * (b >= 0 ? 1 : -1); }\<close>
\<close>

definition modulo_long :: "int \<Rightarrow> int \<Rightarrow> int" where
  "modulo_long a b =
     (let result = a smod \<bar>b\<bar>
      in (if result \<ge> 0 then result else result + b) * (if b \<ge> 0 then 1 else -1))"

text \<open>The centered hexagonal number \<^verbatim>\<open>3 * rings * (rings - 1) + 1\<close>.\<close>

definition hex_size :: "int \<Rightarrow> int" where
  "hex_size rings = 3 * rings * (rings - 1) + 1"

text \<open>
  \<^verbatim>\<open>ssize_t axial_to_index(long p, long q, long rings)\<close>; C's \<^verbatim>\<open>/\<close> truncates towards
  zero: it is \<open>sdiv\<close>.
\<close>

definition axial_to_index :: "int \<Rightarrow> int \<Rightarrow> int \<Rightarrow> int" where
  "axial_to_index p q rings =
     (let x = p; y = q; z = - p - q
      in if \<bar>x\<bar> + \<bar>y\<bar> + \<bar>z\<bar> > 2 * (rings - 1) then - 1
         else (3 * rings * (rings - 1)) sdiv 2
              + y + - z * (rings * 2 - 1)
              + z * (\<bar>z\<bar> + 1) sdiv 2)"

text \<open>
  \<^verbatim>\<open>size_t axial_to_mem_index(long p, long q)\<close>. The six \<^verbatim>\<open>if\<close> statements are not chained
  by \<^verbatim>\<open>else\<close>: each one that holds adds to \<open>i\<close>.
\<close>

definition axial_to_mem_index :: "int \<Rightarrow> int \<Rightarrow> nat" where
  "axial_to_mem_index p q =
     (let x = p; y = q; z = - p - q;
          ring = nat ((\<bar>x\<bar> + \<bar>y\<bar> + \<bar>z\<bar>) sdiv 2);
          i0 = (if ring > 0 then 3 * ring * (ring - 1) + 1 else 0);
          i1 = (if x \<le> 0 \<and> y < 0 then i0 + (ring * 0 + nat \<bar>x\<bar>) else i0);
          i2 = (if y \<ge> 0 \<and> z > 0 then i1 + (ring * 1 + nat \<bar>y\<bar>) else i1);
          i3 = (if z \<le> 0 \<and> x < 0 then i2 + (ring * 2 + nat \<bar>z\<bar>) else i2);
          i4 = (if x \<ge> 0 \<and> y > 0 then i3 + (ring * 3 + nat \<bar>x\<bar>) else i3);
          i5 = (if y \<le> 0 \<and> z < 0 then i4 + (ring * 4 + nat \<bar>y\<bar>) else i4);
          i6 = (if z \<ge> 0 \<and> x > 0 then i5 + (ring * 5 + nat \<bar>z\<bar>) else i5)
      in i6)"

subsection \<open>The memory grid\<close>

text \<open>
  \<^verbatim>\<open>typedef int memory_edge; struct memory_cell { memory_edge value[3]; };\<close>
  The memory is the array \<^verbatim>\<open>struct memory_cell *memory\<close> of \<open>hex_size memory_rings\<close>
  cells. A pointer to a cell is its index in that array and a pointer to an edge is the
  pair of the cell's index and the axis, so that a reference stays meaningful when
  \<^verbatim>\<open>realloc\<close> moves the array.
\<close>

type_synonym memory_edge = "32 word"

type_synonym memory_cell = "memory_edge list"

type_synonym edge_ref = "nat \<times> axis"

fun axis_idx :: "axis \<Rightarrow> nat" where
  "axis_idx X = 0"
| "axis_idx Y = 1"
| "axis_idx Z = 2"

definition zero_cell :: memory_cell where
  "zero_cell = [0, 0, 0]"

text \<open>
  \<^verbatim>\<open>realloc_memory\<close>: the first \<open>old_size\<close> cells are kept, the cells from \<open>old_size\<close>
  up to \<open>new_size\<close> are set to zero.
\<close>

definition realloc_memory :: "memory_cell list \<Rightarrow> int \<Rightarrow> int \<Rightarrow> memory_cell list" where
  "realloc_memory memory old_rings new_rings =
     (let old_size = nat (hex_size old_rings);
          new_size = nat (hex_size new_rings)
      in take old_size memory @ replicate (new_size - old_size) zero_cell)"

text \<open>
  The loop of \<^verbatim>\<open>get_memory_cell\<close>:
  \<^verbatim>\<open>while (index >= (3 * *rings * (*rings - 1) + 1)) {
      *memory = realloc_memory(*memory, *rings, *rings + 1); ++*rings; }\<close>
\<close>

function get_memory_cell_grow :: "nat \<Rightarrow> memory_cell list \<Rightarrow> int \<Rightarrow> memory_cell list \<times> int" where
  "get_memory_cell_grow index memory rings =
     (if int index \<ge> hex_size rings
      then get_memory_cell_grow index (realloc_memory memory rings (rings + 1)) (rings + 1)
      else (memory, rings))"
  by pat_completeness auto

text \<open>The loop ends: \<open>rings \<le> hex_size rings\<close>, so \<open>index + 1 - rings\<close> is positive and falls.\<close>

termination get_memory_cell_grow
proof (relation "measure (\<lambda>(index, memory, rings). nat (int index + 1 - rings))")
  show "wf (measure (\<lambda>(index, memory, rings). nat (int index + 1 - rings)))" by simp
next
  fix index :: nat and memory :: "memory_cell list" and rings :: int
  assume a: "hex_size rings \<le> int index"
  have "hex_size rings - rings = (3 * rings - 1) * (rings - 1)"
    by (simp add: hex_size_def algebra_simps)
  moreover have "0 \<le> (3 * rings - 1) * (rings - 1)"
  proof (cases "1 \<le> rings")
    case True
    then show ?thesis by simp
  next
    case False
    then have "3 * rings - 1 \<le> 0" "rings - 1 \<le> 0" by simp_all
    then show ?thesis by (rule mult_nonpos_nonpos)
  qed
  ultimately have "rings \<le> int index" using a by linarith
  then show "((index, realloc_memory memory rings (rings + 1), rings + 1), (index, memory, rings))
     \<in> measure (\<lambda>(index, memory, rings). nat (int index + 1 - rings))"
    by simp
qed

text \<open>The defining equation unfolds without end; it is applied by hand.\<close>

declare get_memory_cell_grow.simps [simp del]

definition get_memory_cell :: "int \<Rightarrow> int \<Rightarrow> memory_cell list \<Rightarrow> int \<Rightarrow> nat \<times> memory_cell list \<times> int" where
  "get_memory_cell p q memory rings =
     (let index = axial_to_mem_index p q;
          (memory', rings') = get_memory_cell_grow index memory rings
      in (index, memory', rings'))"

definition get_memory_edge :: "memory_pointer \<Rightarrow> memory_cell list \<Rightarrow> int \<Rightarrow> edge_ref \<times> memory_cell list \<times> int" where
  "get_memory_edge ptr memory rings =
     (let (index, memory', rings') = get_memory_cell (mp_p ptr) (mp_q ptr) memory rings
      in ((index, mp_axis ptr), memory', rings'))"

text \<open>Reading and writing through an edge pointer.\<close>

definition load_edge :: "edge_ref \<Rightarrow> memory_cell list \<Rightarrow> memory_edge" where
  "load_edge r memory = (memory ! fst r) ! axis_idx (snd r)"

definition store_edge :: "edge_ref \<Rightarrow> memory_edge \<Rightarrow> memory_cell list \<Rightarrow> memory_cell list" where
  "store_edge r v memory = memory[fst r := (memory ! fst r)[axis_idx (snd r) := v]]"

subsection \<open>Neighbours and moves of the memory pointer, \<^verbatim>\<open>src/src/hexagony.c\<close>\<close>

text \<open>
  \<^verbatim>\<open>modulo(ptr.axis + neighbor, 3)\<close>, converted to \<^verbatim>\<open>enum axis\<close>; both files compute the axis
  of a neighbour with this expression. The left operand is an \<^verbatim>\<open>unsigned int\<close> and the right
  one an \<^verbatim>\<open>int\<close>, so the sum is taken in \<^verbatim>\<open>unsigned int\<close>, where it wraps at 32 bits, and
  only then widened to the \<^verbatim>\<open>long\<close> parameter of \<^verbatim>\<open>modulo\<close>: \<^verbatim>\<open>X + LEFT\<close> is 4294967295, not
  \<open>- 1\<close>.
\<close>

definition neighbor_axis :: "axis \<Rightarrow> neighbor \<Rightarrow> axis" where
  "neighbor_axis a nb =
     axis_of (modulo_long
       (uint (word_of_int (axis_val a) + word_of_int (neighbor_val nb) :: 32 word)) 3)"

text \<open>\<^verbatim>\<open>++xyz[ptr.axis]; --xyz[neighbor_axis];\<close>\<close>

definition shift_xyz :: "axis \<Rightarrow> axis \<Rightarrow> int list \<Rightarrow> int list" where
  "shift_xyz a na xyz =
     (let xyz1 = xyz[axis_idx a := xyz ! axis_idx a + 1]
      in xyz1[axis_idx na := xyz1 ! axis_idx na - 1])"

definition get_neighbor :: "memory_pointer \<Rightarrow> neighbor \<Rightarrow> memory_cell list \<Rightarrow> int \<Rightarrow> edge_ref \<times> memory_cell list \<times> int" where
  "get_neighbor ptr nb memory rings =
     (let xyz = [mp_p ptr, mp_q ptr, - mp_p ptr - mp_q ptr];
          na = neighbor_axis (mp_axis ptr) nb;
          xyz' = (if mp_direction ptr = OUT then shift_xyz (mp_axis ptr) na xyz else xyz);
          (cell, memory', rings') = get_memory_cell (xyz' ! axis_idx X) (xyz' ! axis_idx Y) memory rings
      in ((cell, na), memory', rings'))"

definition move_mp :: "memory_pointer \<Rightarrow> neighbor \<Rightarrow> memory_pointer" where
  "move_mp ptr nb =
     (let xyz = [mp_p ptr, mp_q ptr, - mp_p ptr - mp_q ptr];
          na = neighbor_axis (mp_axis ptr) nb;
          xyz' = (if mp_direction ptr = OUT then shift_xyz (mp_axis ptr) na xyz else xyz);
          d' = (if mp_direction ptr = OUT then IN else OUT)
      in ptr\<lparr>mp_direction := d', mp_axis := na,
              mp_p := xyz' ! axis_idx X, mp_q := xyz' ! axis_idx Y\<rparr>)"

subsection \<open>Neighbours and moves of the memory pointer, \<^verbatim>\<open>src/hexagony.c\<close>\<close>

text \<open>
  The \<^verbatim>\<open>switch (ptr.axis)\<close> that \<^verbatim>\<open>get_neighbor\<close> and \<^verbatim>\<open>move_mp\<close> of \<^verbatim>\<open>src/hexagony.c\<close>
  both run when the direction is \<^verbatim>\<open>OUT\<close>. It shifts the cell by the side alone; the axis of
  the result is computed apart, by \<^verbatim>\<open>modulo(ptr.axis + neighbor, 3)\<close>.
\<close>

definition switch_axis_top :: "axis \<Rightarrow> neighbor \<Rightarrow> int list \<Rightarrow> int list" where
  "switch_axis_top a nb xyz =
     (case a of
        X \<Rightarrow>
          (let xyz1 = xyz[axis_idx X := xyz ! axis_idx X + 1];
               xyz2 = (if nb = LEFT then xyz1[axis_idx Z := xyz1 ! axis_idx Z - 1] else xyz1);
               xyz3 = (if nb = RIGHT then xyz2[axis_idx Y := xyz2 ! axis_idx Y - 1] else xyz2)
           in xyz3)
      | Y \<Rightarrow>
          (let xyz1 = xyz[axis_idx Y := xyz ! axis_idx Y + 1];
               xyz2 = (if nb = LEFT then xyz1[axis_idx X := xyz1 ! axis_idx X - 1] else xyz1);
               xyz3 = (if nb = RIGHT then xyz2[axis_idx Z := xyz2 ! axis_idx Z - 1] else xyz2)
           in xyz3)
      | Z \<Rightarrow>
          (let xyz1 = xyz[axis_idx Z := xyz ! axis_idx Z + 1];
               xyz2 = (if nb = LEFT then xyz1[axis_idx Y := xyz1 ! axis_idx Y - 1] else xyz1);
               xyz3 = (if nb = RIGHT then xyz2[axis_idx X := xyz2 ! axis_idx X - 1] else xyz2)
           in xyz3))"

definition get_neighbor_top :: "memory_pointer \<Rightarrow> neighbor \<Rightarrow> memory_cell list \<Rightarrow> int \<Rightarrow> edge_ref \<times> memory_cell list \<times> int" where
  "get_neighbor_top ptr nb memory rings =
     (let xyz = [mp_p ptr, mp_q ptr, - mp_p ptr - mp_q ptr];
          xyz' = (if mp_direction ptr = OUT then switch_axis_top (mp_axis ptr) nb xyz else xyz);
          (cell, memory', rings') = get_memory_cell (xyz' ! axis_idx X) (xyz' ! axis_idx Y) memory rings
      in ((cell, neighbor_axis (mp_axis ptr) nb), memory', rings'))"

definition move_mp_top :: "memory_pointer \<Rightarrow> neighbor \<Rightarrow> memory_pointer" where
  "move_mp_top ptr nb =
     (let xyz = [mp_p ptr, mp_q ptr, - mp_p ptr - mp_q ptr];
          xyz' = (if mp_direction ptr = OUT then switch_axis_top (mp_axis ptr) nb xyz else xyz);
          d' = (if mp_direction ptr = OUT then IN else OUT)
      in ptr\<lparr>mp_direction := d', mp_axis := neighbor_axis (mp_axis ptr) nb,
              mp_p := xyz' ! axis_idx X, mp_q := xyz' ! axis_idx Y\<rparr>)"

subsection \<open>The state of \<^verbatim>\<open>main\<close>\<close>

record IP =
  ip_p :: int
  ip_q :: int
  ip_direction :: direction
  ignore_next :: bool

record machine =
  IPs :: "IP list"
  IP_index :: int
  memory_rings :: int
  memory :: "memory_cell list"
  MP :: memory_pointer

text \<open>The initialiser of \<^verbatim>\<open>IPs[6]\<close>.\<close>

definition init_IPs :: "int \<Rightarrow> IP list" where
  "init_IPs program_rings =
     [\<lparr>ip_p = 0, ip_q = - (program_rings - 1), ip_direction = E, ignore_next = False\<rparr>,
      \<lparr>ip_p = - (program_rings - 1), ip_q = 0, ip_direction = SE, ignore_next = False\<rparr>,
      \<lparr>ip_p = - (program_rings - 1), ip_q = (program_rings - 1), ip_direction = SW, ignore_next = False\<rparr>,
      \<lparr>ip_p = 0, ip_q = (program_rings - 1), ip_direction = W, ignore_next = False\<rparr>,
      \<lparr>ip_p = (program_rings - 1), ip_q = 0, ip_direction = NW, ignore_next = False\<rparr>,
      \<lparr>ip_p = (program_rings - 1), ip_q = - (program_rings - 1), ip_direction = NE, ignore_next = False\<rparr>]"

text \<open>
  The state when the loop of \<^verbatim>\<open>main\<close> is entered, in \<^verbatim>\<open>src/src/hexagony.c\<close>:
  \<^verbatim>\<open>int IP_index = 0; long memory_rings = 1;
  struct memory_cell *memory = calloc(1, sizeof(struct memory_cell));
  struct memory_pointer MP = {0, 0, Z, OUT};\<close>
\<close>

definition init_machine :: "int \<Rightarrow> machine" where
  "init_machine program_rings =
     \<lparr>IPs = init_IPs program_rings, IP_index = 0, memory_rings = 1, memory = [zero_cell],
      MP = \<lparr>mp_p = 0, mp_q = 0, mp_axis = Z, mp_direction = OUT\<rparr>\<rparr>"

text \<open>In \<^verbatim>\<open>src/hexagony.c\<close> the last line is \<^verbatim>\<open>struct memory_pointer MP = {0, 0, Z, IN};\<close>\<close>

definition init_machine_top :: "int \<Rightarrow> machine" where
  "init_machine_top program_rings =
     \<lparr>IPs = init_IPs program_rings, IP_index = 0, memory_rings = 1, memory = [zero_cell],
      MP = \<lparr>mp_p = 0, mp_q = 0, mp_axis = Z, mp_direction = IN\<rparr>\<rparr>"

text \<open>
  \<^verbatim>\<open>get_memory_edge(MP, &memory, &memory_rings)\<close> and
  \<^verbatim>\<open>get_neighbor(MP, side, &memory, &memory_rings)\<close> on the state of \<^verbatim>\<open>main\<close>: the edge
  pointer, and the state with the memory as the call has grown it.
\<close>

definition current_edge :: "machine \<Rightarrow> edge_ref \<times> machine" where
  "current_edge s =
     (let (r, memory', rings') = get_memory_edge (MP s) (memory s) (memory_rings s)
      in (r, s\<lparr>memory := memory', memory_rings := rings'\<rparr>))"

definition neighbor_edge :: "neighbor \<Rightarrow> machine \<Rightarrow> edge_ref \<times> machine" where
  "neighbor_edge nb s =
     (let (r, memory', rings') = get_neighbor (MP s) nb (memory s) (memory_rings s)
      in (r, s\<lparr>memory := memory', memory_rings := rings'\<rparr>))"

definition neighbor_edge_top :: "neighbor \<Rightarrow> machine \<Rightarrow> edge_ref \<times> machine" where
  "neighbor_edge_top nb s =
     (let (r, memory', rings') = get_neighbor_top (MP s) nb (memory s) (memory_rings s)
      in (r, s\<lparr>memory := memory', memory_rings := rings'\<rparr>))"

definition get_edge :: "edge_ref \<Rightarrow> machine \<Rightarrow> memory_edge" where
  "get_edge r s = load_edge r (memory s)"

definition set_edge :: "edge_ref \<Rightarrow> memory_edge \<Rightarrow> machine \<Rightarrow> machine" where
  "set_edge r v s = s\<lparr>memory := store_edge r v (memory s)\<rparr>"

text \<open>\<^verbatim>\<open>MP.direction = MP.direction == IN ? OUT : IN;\<close>\<close>

definition toggle :: "memory_pointer \<Rightarrow> memory_pointer" where
  "toggle ptr = ptr\<lparr>mp_direction := (if mp_direction ptr = IN then OUT else IN)\<rparr>"

text \<open>\<^verbatim>\<open>struct IP *IP = IPs + IP_index; IP->direction = ...\<close>\<close>

definition active_direction :: "machine \<Rightarrow> direction" where
  "active_direction s = ip_direction (IPs s ! nat (IP_index s))"

definition set_direction :: "direction \<Rightarrow> machine \<Rightarrow> machine" where
  "set_direction d s =
     s\<lparr>IPs := (IPs s)[nat (IP_index s) := (IPs s ! nat (IP_index s))\<lparr>ip_direction := d\<rparr>]\<rparr>"

subsection \<open>Instruction dispatch\<close>

text \<open>\<^verbatim>\<open>isalpha\<close> and \<^verbatim>\<open>isdigit\<close> of the C locale, on the byte of a program cell.\<close>

definition isalpha :: "char \<Rightarrow> bool" where
  "isalpha c = (let n = (of_char c :: nat) in (65 \<le> n \<and> n \<le> 90) \<or> (97 \<le> n \<and> n \<le> 122))"

definition isdigit :: "char \<Rightarrow> bool" where
  "isdigit c = (let n = (of_char c :: nat) in 48 \<le> n \<and> n \<le> 57)"

text \<open>The character of a program cell as a C \<^verbatim>\<open>int\<close>.\<close>

definition char_val :: "char \<Rightarrow> memory_edge" where
  "char_val c = of_nat (of_char c)"

text \<open>The four mirror tables and the two branch tables, which are the same in both files.\<close>

fun mirror_slash :: "direction \<Rightarrow> direction" where
  "mirror_slash NW = E"
| "mirror_slash NE = NE"
| "mirror_slash E = NW"
| "mirror_slash SE = W"
| "mirror_slash SW = SW"
| "mirror_slash W = SE"

fun mirror_backslash :: "direction \<Rightarrow> direction" where
  "mirror_backslash NW = NW"
| "mirror_backslash NE = W"
| "mirror_backslash E = SW"
| "mirror_backslash SE = SE"
| "mirror_backslash SW = E"
| "mirror_backslash W = NE"

fun mirror_underscore :: "direction \<Rightarrow> direction" where
  "mirror_underscore NW = SW"
| "mirror_underscore NE = SE"
| "mirror_underscore E = E"
| "mirror_underscore SE = NE"
| "mirror_underscore SW = NW"
| "mirror_underscore W = W"

fun mirror_bar :: "direction \<Rightarrow> direction" where
  "mirror_bar NW = NE"
| "mirror_bar NE = NW"
| "mirror_bar E = W"
| "mirror_bar SE = SW"
| "mirror_bar SW = SE"
| "mirror_bar W = E"

text \<open>
  \<^verbatim>\<open>case '<'\<close> and \<^verbatim>\<open>case '>'\<close>: the current edge is fetched (and the memory grown) only
  in the branching case.
\<close>

definition branch_less :: "machine \<Rightarrow> machine" where
  "branch_less s =
     (case active_direction s of
        NW \<Rightarrow> set_direction W s
      | NE \<Rightarrow> set_direction SW s
      | E \<Rightarrow> (let (r, s1) = current_edge s
               in set_direction (if sint (get_edge r s1) > 0 then SE else NE) s1)
      | SE \<Rightarrow> set_direction NW s
      | SW \<Rightarrow> set_direction W s
      | W \<Rightarrow> set_direction E s)"

definition branch_greater :: "machine \<Rightarrow> machine" where
  "branch_greater s =
     (case active_direction s of
        NW \<Rightarrow> set_direction SE s
      | NE \<Rightarrow> set_direction E s
      | E \<Rightarrow> set_direction W s
      | SE \<Rightarrow> set_direction E s
      | SW \<Rightarrow> set_direction NE s
      | W \<Rightarrow> (let (r, s1) = current_edge s
               in set_direction (if sint (get_edge r s1) > 0 then NW else SW) s1))"

text \<open>
  C's \<^verbatim>\<open>/\<close> and \<^verbatim>\<open>%\<close> on \<^verbatim>\<open>int\<close>: truncating, and undefined (a trap on the usual
  hardware) for a zero divisor and for \<^verbatim>\<open>INT_MIN / -1\<close>; \<open>None\<close> is that case.
\<close>

definition int_div :: "memory_edge \<Rightarrow> memory_edge \<Rightarrow> memory_edge option" where
  "int_div l r =
     (if sint r = 0 \<or> (sint l = - (2 ^ 31) \<and> sint r = - 1) then None
      else Some (word_of_int (sint l sdiv sint r)))"

definition int_rem :: "memory_edge \<Rightarrow> memory_edge \<Rightarrow> memory_edge option" where
  "int_rem l r =
     (if sint r = 0 \<or> (sint l = - (2 ^ 31) \<and> sint r = - 1) then None
      else Some (word_of_int (sint l smod sint r)))"

text \<open>
  \<^verbatim>\<open>*get_memory_edge(MP, ..) = *get_neighbor(MP, LEFT, ..) op *get_neighbor(MP, RIGHT, ..);\<close>
  The three calls grow the memory to the same final size in whatever order they run. In C
  an edge pointer taken before a later call reallocates the array is left dangling; the
  edge pointers of the model are index pairs that stay valid, so the model describes the
  runs in which the array is not moved between the calls of one instruction (the same
  holds for the arm of \<^verbatim>\<open>&\<close>).
\<close>

definition binop :: "(memory_edge \<Rightarrow> memory_edge \<Rightarrow> memory_edge option) \<Rightarrow> machine \<Rightarrow> machine option" where
  "binop f s =
     (let (e, s1) = current_edge s;
          (l, s2) = neighbor_edge LEFT s1;
          (r, s3) = neighbor_edge RIGHT s2
      in case f (get_edge l s3) (get_edge r s3) of
           None \<Rightarrow> None
         | Some v \<Rightarrow> Some (set_edge e v s3))"

definition binop_top :: "(memory_edge \<Rightarrow> memory_edge \<Rightarrow> memory_edge option) \<Rightarrow> machine \<Rightarrow> machine option" where
  "binop_top f s =
     (let (e, s1) = current_edge s;
          (l, s2) = neighbor_edge_top LEFT s1;
          (r, s3) = neighbor_edge_top RIGHT s2
      in case f (get_edge l s3) (get_edge r s3) of
           None \<Rightarrow> None
         | Some v \<Rightarrow> Some (set_edge e v s3))"

text \<open>
  The dispatch on \<^verbatim>\<open>instruction->value\<close> in the loop of \<^verbatim>\<open>main\<close>, \<^verbatim>\<open>src/src/hexagony.c\<close>.
  The result is the state after the instruction, or \<open>None\<close> when a division is undefined.
  The standard streams are not part of the state: \<open>inp\<close> is what the standard input
  delivers to the instruction (for \<^verbatim>\<open>,\<close> the result of \<^verbatim>\<open>getchar()\<close>; for \<^verbatim>\<open>?\<close> the integer
  that \<^verbatim>\<open>scanf\<close> stores, or 0 when it stores none), and \<^verbatim>\<open>;\<close> and \<^verbatim>\<open>!\<close> only fetch the
  edge they print. \<^verbatim>\<open>@\<close> leaves the state as it is; the loop ends on it.
\<close>

definition dispatch :: "memory_edge \<Rightarrow> char \<Rightarrow> machine \<Rightarrow> machine option" where
  "dispatch inp c s =
     (if isalpha c then
        (let (edge, s1) = current_edge s in Some (set_edge edge (char_val c) s1))
      else if isdigit c then
        (let (edge, s1) = current_edge s;
             s2 = set_edge edge (get_edge edge s1 * 10) s1;
             s3 = set_edge edge
                    (get_edge edge s2
                       + (if sint (get_edge edge s2) < 0 then - 1 else 1) * (char_val c - char_val CHR ''0''))
                    s2
         in Some s3)
      else if c = CHR ''.'' then Some s
      else if c = CHR ''@'' then Some s
      else if c = CHR '')'' then
        (let (edge, s1) = current_edge s in Some (set_edge edge (get_edge edge s1 + 1) s1))
      else if c = CHR ''('' then
        (let (edge, s1) = current_edge s in Some (set_edge edge (get_edge edge s1 - 1) s1))
      else if c = CHR ''+'' then binop (\<lambda>l r. Some (l + r)) s
      else if c = CHR ''-'' then binop (\<lambda>l r. Some (l - r)) s
      else if c = CHR ''*'' then binop (\<lambda>l r. Some (l * r)) s
      else if c = CHR '':'' then binop int_div s
      else if c = CHR ''%'' then binop int_rem s
      else if c = CHR ''~'' then
        (let (edge, s1) = current_edge s in Some (set_edge edge (get_edge edge s1 * - 1) s1))
      else if c = CHR '','' then
        (let (edge, s1) = current_edge s in Some (set_edge edge inp s1))
      else if c = CHR ''?'' then
        (let (edge, s1) = current_edge s in Some (set_edge edge inp (set_edge edge 0 s1)))
      else if c = CHR '';'' then
        (let (edge, s1) = current_edge s in Some s1)
      else if c = CHR ''!'' then
        (let (edge, s1) = current_edge s in Some s1)
      else if c = CHR ''$'' then
        Some (s\<lparr>IPs := (IPs s)[nat (IP_index s) := (IPs s ! nat (IP_index s))\<lparr>ignore_next := True\<rparr>]\<rparr>)
      else if c = CHR ''/'' then Some (set_direction (mirror_slash (active_direction s)) s)
      else if c = CHR 0x5C then Some (set_direction (mirror_backslash (active_direction s)) s)
      else if c = CHR ''_'' then Some (set_direction (mirror_underscore (active_direction s)) s)
      else if c = CHR ''|'' then Some (set_direction (mirror_bar (active_direction s)) s)
      else if c = CHR ''<'' then Some (branch_less s)
      else if c = CHR ''>'' then Some (branch_greater s)
      else if c = CHR ''['' then Some (s\<lparr>IP_index := modulo_long (IP_index s - 1) 6\<rparr>)
      else if c = CHR '']'' then Some (s\<lparr>IP_index := modulo_long (IP_index s + 1) 6\<rparr>)
      else if c = CHR ''#'' then
        (let (edge, s1) = current_edge s
         in Some (s1\<lparr>IP_index := modulo_long (sint (get_edge edge s1)) 6\<rparr>))
      else if c = CHR ''{'' then Some (s\<lparr>MP := move_mp (MP s) LEFT\<rparr>)
      else if c = CHR ''}'' then Some (s\<lparr>MP := move_mp (MP s) RIGHT\<rparr>)
      else if c = CHR 0x22 then Some (s\<lparr>MP := toggle (move_mp (toggle (MP s)) RIGHT)\<rparr>)
      else if c = CHR 0x27 then Some (s\<lparr>MP := toggle (move_mp (toggle (MP s)) LEFT)\<rparr>)
      else if c = CHR ''='' then Some (s\<lparr>MP := toggle (MP s)\<rparr>)
      else if c = CHR ''^'' then
        (let (edge, s1) = current_edge s
         in Some (s1\<lparr>MP := move_mp (MP s1) (if sint (get_edge edge s1) \<le> 0 then LEFT else RIGHT)\<rparr>))
      else if c = CHR ''&'' then
        (let (edge, s1) = current_edge s;
             (n, s2) = neighbor_edge (if sint (get_edge edge s1) \<le> 0 then LEFT else RIGHT) s1
         in Some (set_edge edge (get_edge n s2) s2))
      else Some s)"

text \<open>
  The same dispatch in \<^verbatim>\<open>src/hexagony.c\<close>. It differs in the digit arm
  (\<^verbatim>\<open>(*edge < 0 ? -1 : 1) * instruction->value - '0'\<close>, without the parentheses), in the arms of
  \<^verbatim>\<open>[\<close> and \<^verbatim>\<open>]\<close>, and in the arm of \<^verbatim>\<open>#\<close>, which has no \<^verbatim>\<open>break\<close> and runs on into the
  arm of \<^verbatim>\<open>{\<close>; it calls the \<^verbatim>\<open>get_neighbor\<close> and \<^verbatim>\<open>move_mp\<close> of its own file.
\<close>

definition dispatch_top :: "memory_edge \<Rightarrow> char \<Rightarrow> machine \<Rightarrow> machine option" where
  "dispatch_top inp c s =
     (if isalpha c then
        (let (edge, s1) = current_edge s in Some (set_edge edge (char_val c) s1))
      else if isdigit c then
        (let (edge, s1) = current_edge s;
             s2 = set_edge edge (get_edge edge s1 * 10) s1;
             s3 = set_edge edge
                    (get_edge edge s2
                       + ((if sint (get_edge edge s2) < 0 then - 1 else 1) * char_val c - char_val CHR ''0''))
                    s2
         in Some s3)
      else if c = CHR ''.'' then Some s
      else if c = CHR ''@'' then Some s
      else if c = CHR '')'' then
        (let (edge, s1) = current_edge s in Some (set_edge edge (get_edge edge s1 + 1) s1))
      else if c = CHR ''('' then
        (let (edge, s1) = current_edge s in Some (set_edge edge (get_edge edge s1 - 1) s1))
      else if c = CHR ''+'' then binop_top (\<lambda>l r. Some (l + r)) s
      else if c = CHR ''-'' then binop_top (\<lambda>l r. Some (l - r)) s
      else if c = CHR ''*'' then binop_top (\<lambda>l r. Some (l * r)) s
      else if c = CHR '':'' then binop_top int_div s
      else if c = CHR ''%'' then binop_top int_rem s
      else if c = CHR ''~'' then
        (let (edge, s1) = current_edge s in Some (set_edge edge (get_edge edge s1 * - 1) s1))
      else if c = CHR '','' then
        (let (edge, s1) = current_edge s in Some (set_edge edge inp s1))
      else if c = CHR ''?'' then
        (let (edge, s1) = current_edge s in Some (set_edge edge inp (set_edge edge 0 s1)))
      else if c = CHR '';'' then
        (let (edge, s1) = current_edge s in Some s1)
      else if c = CHR ''!'' then
        (let (edge, s1) = current_edge s in Some s1)
      else if c = CHR ''$'' then
        Some (s\<lparr>IPs := (IPs s)[nat (IP_index s) := (IPs s ! nat (IP_index s))\<lparr>ignore_next := True\<rparr>]\<rparr>)
      else if c = CHR ''/'' then Some (set_direction (mirror_slash (active_direction s)) s)
      else if c = CHR 0x5C then Some (set_direction (mirror_backslash (active_direction s)) s)
      else if c = CHR ''_'' then Some (set_direction (mirror_underscore (active_direction s)) s)
      else if c = CHR ''|'' then Some (set_direction (mirror_bar (active_direction s)) s)
      else if c = CHR ''<'' then Some (branch_less s)
      else if c = CHR ''>'' then Some (branch_greater s)
      else if c = CHR ''['' then Some (s\<lparr>IP_index := modulo_long (IP_index s + 1) 6\<rparr>)
      else if c = CHR '']'' then Some (s\<lparr>IP_index := modulo_long (IP_index s - 1) 6\<rparr>)
      else if c = CHR ''#'' then
        (let (edge, s1) = current_edge s;
             s2 = s1\<lparr>IP_index := modulo_long (sint (get_edge edge s1)) 6\<rparr>
         in Some (s2\<lparr>MP := move_mp_top (MP s2) LEFT\<rparr>))
      else if c = CHR ''{'' then Some (s\<lparr>MP := move_mp_top (MP s) LEFT\<rparr>)
      else if c = CHR ''}'' then Some (s\<lparr>MP := move_mp_top (MP s) RIGHT\<rparr>)
      else if c = CHR 0x22 then Some (s\<lparr>MP := toggle (move_mp_top (toggle (MP s)) RIGHT)\<rparr>)
      else if c = CHR 0x27 then Some (s\<lparr>MP := toggle (move_mp_top (toggle (MP s)) LEFT)\<rparr>)
      else if c = CHR ''='' then Some (s\<lparr>MP := toggle (MP s)\<rparr>)
      else if c = CHR ''^'' then
        (let (edge, s1) = current_edge s
         in Some (s1\<lparr>MP := move_mp_top (MP s1) (if sint (get_edge edge s1) \<le> 0 then LEFT else RIGHT)\<rparr>))
      else if c = CHR ''&'' then
        (let (edge, s1) = current_edge s;
             (n, s2) = neighbor_edge_top (if sint (get_edge edge s1) \<le> 0 then LEFT else RIGHT) s1
         in Some (set_edge edge (get_edge n s2) s2))
      else Some s)"

subsection \<open>Advancing the instruction pointer\<close>

text \<open>\<^verbatim>\<open>direction_offset[]\<close>\<close>

fun direction_offset :: "direction \<Rightarrow> int \<times> int" where
  "direction_offset NW = (0, - 1)"
| "direction_offset NE = (- 1, 0)"
| "direction_offset E = (- 1, 1)"
| "direction_offset SE = (0, 1)"
| "direction_offset SW = (1, 0)"
| "direction_offset W = (1, - 1)"

text \<open>
  The cascade that assigns \<^verbatim>\<open>enum axis reflection\<close>. \<open>None\<close> is the case in which no test
  holds and the variable is read without having been assigned.
\<close>

definition reflection_axis :: "int \<Rightarrow> int \<Rightarrow> int \<Rightarrow> machine \<Rightarrow> axis option \<times> machine" where
  "reflection_axis np nq nr s =
     (if np = 0 then
        (let (r, s1) = current_edge s in (Some (if sint (get_edge r s1) > 0 then Y else Z), s1))
      else if nq = 0 then
        (let (r, s1) = current_edge s in (Some (if sint (get_edge r s1) > 0 then Z else X), s1))
      else if nr = 0 then
        (let (r, s1) = current_edge s in (Some (if sint (get_edge r s1) > 0 then X else Y), s1))
      else if nq * nr > 0 then (Some X, s)
      else if nr * np > 0 then (Some Y, s)
      else if np * nq > 0 then (Some Z, s)
      else (None, s))"

text \<open>
  The end of the loop body, from \<^verbatim>\<open>long np = IP->p + ...\<close> to \<^verbatim>\<open>IP->q = nq;\<close>, the same
  in both files. \<open>i\<close> is the index of the instruction pointer that \<^verbatim>\<open>IP\<close> was set to at the
  top of the loop body.
\<close>

definition advance :: "int \<Rightarrow> nat \<Rightarrow> machine \<Rightarrow> machine option" where
  "advance program_rings i s =
     (let ip = IPs s ! i;
          np = ip_p ip + fst (direction_offset (ip_direction ip));
          nq = ip_q ip + snd (direction_offset (ip_direction ip));
          nr = - np - nq
      in if \<bar>np\<bar> + \<bar>nq\<bar> + \<bar>nr\<bar> \<ge> 2 * program_rings then
           (case reflection_axis np nq nr s of
              (None, s1) \<Rightarrow> None
            | (Some X, s1) \<Rightarrow>
                Some (s1\<lparr>IPs := (IPs s1)[i := ip\<lparr>ip_p := - ip_p ip, ip_q := ip_p ip + ip_q ip\<rparr>]\<rparr>)
            | (Some Y, s1) \<Rightarrow>
                Some (s1\<lparr>IPs := (IPs s1)[i := ip\<lparr>ip_p := ip_p ip + ip_q ip, ip_q := - ip_q ip\<rparr>]\<rparr>)
            | (Some Z, s1) \<Rightarrow>
                Some (s1\<lparr>IPs := (IPs s1)[i := ip\<lparr>ip_p := - ip_q ip, ip_q := - ip_p ip\<rparr>]\<rparr>))
         else Some (s\<lparr>IPs := (IPs s)[i := ip\<lparr>ip_p := np, ip_q := nq\<rparr>]\<rparr>))"

subsection \<open>Observing the memory\<close>

text \<open>
  The shape \<^verbatim>\<open>main\<close> keeps the memory in: \<^verbatim>\<open>memory_rings\<close> is at least 1, the array holds
  \<open>hex_size memory_rings\<close> cells, and every cell has its three edges.
\<close>

definition memory_ok :: "machine \<Rightarrow> bool" where
  "memory_ok s =
     (1 \<le> memory_rings s \<and> int (length (memory s)) = hex_size (memory_rings s)
      \<and> list_all (\<lambda>c. length c = 3) (memory s))"

text \<open>
  The value of an edge as a program can observe it: a cell that has not been allocated yet
  reads as zero once it is, because \<^verbatim>\<open>realloc_memory\<close> zeroes every new cell.
\<close>

definition edge_value :: "machine \<Rightarrow> edge_ref \<Rightarrow> memory_edge" where
  "edge_value s r = (if fst r < length (memory s) then load_edge r (memory s) else 0)"

subsection \<open>Ring and sextant of a memory index\<close>

text \<open>
  The source has no inverse of \<^verbatim>\<open>axial_to_mem_index\<close>. The two definitions below follow the
  specification's words, ``round-trip via ring-and-sextant decomposition'': an index is
  decomposed into its ring number, its sextant (0 to 5) and the offset within the sextant,
  and the coordinate is recomposed from them. \<open>index_ring i\<close> is the largest \<open>ring\<close> with
  \<open>3 * ring * (ring - 1) + 1 \<le> i\<close>, and 0 for the index 0.
\<close>

primrec index_ring :: "nat \<Rightarrow> nat" where
  "index_ring 0 = 0"
| "index_ring (Suc n) =
     (if 3 * (index_ring n + 1) * index_ring n + 1 \<le> Suc n then index_ring n + 1 else index_ring n)"

definition mem_index_to_axial :: "nat \<Rightarrow> int \<times> int" where
  "mem_index_to_axial i =
     (let ring = index_ring i
      in if ring = 0 then (0, 0)
         else
           (let off = i - (3 * ring * (ring - 1) + 1);
                sextant = off div ring;
                t = int (off mod ring);
                k = int ring
            in if sextant = 0 then (- t, t - k)
               else if sextant = 1 then (- k, t)
               else if sextant = 2 then (t - k, k)
               else if sextant = 3 then (t, k - t)
               else if sextant = 4 then (k, - t)
               else (k - t, - k)))"

section \<open>Theorems\<close>

subsection \<open>The mathematical modulus\<close>

lemma modulo_pos: "0 < b \<Longrightarrow> modulo_long a b = a mod b"
proof -
  assume b: "0 < b"
  have s: "a smod b = a mod b - b * of_bool (sgn a \<noteq> sgn b \<and> \<not> b dvd a)"
    by (rule signed_modulo_int_eq_modulo_int)
  have m: "0 \<le> a mod b" "a mod b < b" using b by simp_all
  show ?thesis
  proof (cases "sgn a \<noteq> sgn b \<and> \<not> b dvd a")
    case True
    then have "a smod b = a mod b - b" using s by simp
    then show ?thesis using b m by (simp add: modulo_long_def Let_def)
  next
    case False
    then have "a smod b = a mod b" using s by simp
    then show ?thesis using b m by (simp add: modulo_long_def Let_def)
  qed
qed

text \<open>
  C9. For every integer \<open>a\<close> and every integer \<open>b > 0\<close>, \<open>modulo_long a b\<close> lies in \<open>0..b-1\<close>
  and is congruent to \<open>a\<close> modulo \<open>b\<close>; it is the mathematical \<open>a mod b\<close>, also when
  \<open>a\<close> is negative.
\<close>

theorem modulo_mathematical:
  "0 < b \<Longrightarrow> 0 \<le> modulo_long a b \<and> modulo_long a b < b \<and> b dvd (a - modulo_long a b) \<and> modulo_long a b = a mod b"
  by (simp add: modulo_pos)

theorem modulo_mathematical_witness:
  "(0::int) < 6 \<and> modulo_long (- 1) 6 = 5 \<and> 0 \<le> modulo_long (- 1) 6 \<and> modulo_long (- 1) 6 < 6
     \<and> (6::int) dvd (- 1 - modulo_long (- 1) 6)"
  using modulo_mathematical [of 6 "- 1"] by simp

subsection \<open>Neighbours and moves in the two files\<close>

text \<open>
  The axis of a neighbour. To the left of \<open>X\<close> the code finds \<open>X\<close> itself: the sum
  \<^verbatim>\<open>X + LEFT\<close> wraps to 4294967295, which is divisible by 3.
\<close>

lemma uint_minus_one_32: "uint (- 1 :: 32 word) = 4294967295"
  by (simp add: unsigned_minus_1_eq_mask mask_eq_exp_minus_1)

lemma neighbor_axis_simps:
  "neighbor_axis X LEFT = X" "neighbor_axis X RIGHT = Y"
  "neighbor_axis Y LEFT = X" "neighbor_axis Y RIGHT = Z"
  "neighbor_axis Z LEFT = Y" "neighbor_axis Z RIGHT = X"
  by (simp_all add: neighbor_axis_def modulo_long_def axis_of_def signed_modulo_int_def
      uint_minus_one_32)

text \<open>The conversion to \<^verbatim>\<open>enum axis\<close> is exact: \<^verbatim>\<open>modulo(_, 3)\<close> yields 0, 1 or 2 here.\<close>

lemma neighbor_axis_val:
  "axis_val (neighbor_axis a nb)
     = modulo_long (uint (word_of_int (axis_val a) + word_of_int (neighbor_val nb) :: 32 word)) 3"
  by (cases a; cases nb)
     (simp_all add: neighbor_axis_simps modulo_long_def signed_modulo_int_def uint_minus_one_32)

lemma move_mp_IN:
  "move_mp \<lparr>mp_p = p, mp_q = q, mp_axis = a, mp_direction = IN\<rparr> nb
     = \<lparr>mp_p = p, mp_q = q, mp_axis = neighbor_axis a nb, mp_direction = OUT\<rparr>"
  by (simp add: move_mp_def Let_def)

lemma move_mp_OUT:
  "move_mp \<lparr>mp_p = p, mp_q = q, mp_axis = X, mp_direction = OUT\<rparr> LEFT
     = \<lparr>mp_p = p, mp_q = q, mp_axis = X, mp_direction = IN\<rparr>"
  "move_mp \<lparr>mp_p = p, mp_q = q, mp_axis = X, mp_direction = OUT\<rparr> RIGHT
     = \<lparr>mp_p = p + 1, mp_q = q - 1, mp_axis = Y, mp_direction = IN\<rparr>"
  "move_mp \<lparr>mp_p = p, mp_q = q, mp_axis = Y, mp_direction = OUT\<rparr> LEFT
     = \<lparr>mp_p = p - 1, mp_q = q + 1, mp_axis = X, mp_direction = IN\<rparr>"
  "move_mp \<lparr>mp_p = p, mp_q = q, mp_axis = Y, mp_direction = OUT\<rparr> RIGHT
     = \<lparr>mp_p = p, mp_q = q + 1, mp_axis = Z, mp_direction = IN\<rparr>"
  "move_mp \<lparr>mp_p = p, mp_q = q, mp_axis = Z, mp_direction = OUT\<rparr> LEFT
     = \<lparr>mp_p = p, mp_q = q - 1, mp_axis = Y, mp_direction = IN\<rparr>"
  "move_mp \<lparr>mp_p = p, mp_q = q, mp_axis = Z, mp_direction = OUT\<rparr> RIGHT
     = \<lparr>mp_p = p - 1, mp_q = q, mp_axis = X, mp_direction = IN\<rparr>"
  by (simp_all add: move_mp_def Let_def neighbor_axis_simps shift_xyz_def)

lemma move_mp_top_IN:
  "move_mp_top \<lparr>mp_p = p, mp_q = q, mp_axis = a, mp_direction = IN\<rparr> nb
     = \<lparr>mp_p = p, mp_q = q, mp_axis = neighbor_axis a nb, mp_direction = OUT\<rparr>"
  by (simp add: move_mp_top_def Let_def)

lemma move_mp_top_OUT:
  "move_mp_top \<lparr>mp_p = p, mp_q = q, mp_axis = X, mp_direction = OUT\<rparr> LEFT
     = \<lparr>mp_p = p + 1, mp_q = q, mp_axis = X, mp_direction = IN\<rparr>"
  "move_mp_top \<lparr>mp_p = p, mp_q = q, mp_axis = X, mp_direction = OUT\<rparr> RIGHT
     = \<lparr>mp_p = p + 1, mp_q = q - 1, mp_axis = Y, mp_direction = IN\<rparr>"
  "move_mp_top \<lparr>mp_p = p, mp_q = q, mp_axis = Y, mp_direction = OUT\<rparr> LEFT
     = \<lparr>mp_p = p - 1, mp_q = q + 1, mp_axis = X, mp_direction = IN\<rparr>"
  "move_mp_top \<lparr>mp_p = p, mp_q = q, mp_axis = Y, mp_direction = OUT\<rparr> RIGHT
     = \<lparr>mp_p = p, mp_q = q + 1, mp_axis = Z, mp_direction = IN\<rparr>"
  "move_mp_top \<lparr>mp_p = p, mp_q = q, mp_axis = Z, mp_direction = OUT\<rparr> LEFT
     = \<lparr>mp_p = p, mp_q = q - 1, mp_axis = Y, mp_direction = IN\<rparr>"
  "move_mp_top \<lparr>mp_p = p, mp_q = q, mp_axis = Z, mp_direction = OUT\<rparr> RIGHT
     = \<lparr>mp_p = p - 1, mp_q = q, mp_axis = X, mp_direction = IN\<rparr>"
  by (simp_all add: move_mp_top_def Let_def neighbor_axis_simps switch_axis_top_def)

text \<open>
  The two files move the pointer alike, except to the left of \<open>X\<close> when the direction is
  \<^verbatim>\<open>OUT\<close>: there \<^verbatim>\<open>src/src/hexagony.c\<close> leaves the cell and \<^verbatim>\<open>src/hexagony.c\<close> shifts it.
\<close>

lemma move_mp_top_eq:
  fixes ptr :: memory_pointer
  assumes "\<not> (mp_axis ptr = X \<and> nb = LEFT \<and> mp_direction ptr = OUT)"
  shows "move_mp_top ptr nb = move_mp ptr nb"
proof (cases ptr)
  case (fields p q a d)
  show ?thesis
    using assms unfolding fields
    by (cases a; cases d; cases nb)
       (simp_all add: move_mp_IN move_mp_top_IN move_mp_OUT move_mp_top_OUT)
qed

lemma toggle_simps:
  "toggle \<lparr>mp_p = p, mp_q = q, mp_axis = a, mp_direction = IN\<rparr>
     = \<lparr>mp_p = p, mp_q = q, mp_axis = a, mp_direction = OUT\<rparr>"
  "toggle \<lparr>mp_p = p, mp_q = q, mp_axis = a, mp_direction = OUT\<rparr>
     = \<lparr>mp_p = p, mp_q = q, mp_axis = a, mp_direction = IN\<rparr>"
  by (simp_all add: toggle_def)

subsection \<open>Growing the memory keeps its contents\<close>

lemma hex_size_step: "hex_size (rings + 1) = hex_size rings + 6 * rings"
  by (simp add: hex_size_def algebra_simps)

lemma realloc_memory_next:
  assumes "1 \<le> rings" "int (length mem) = hex_size rings"
  shows "realloc_memory mem rings (rings + 1) = mem @ replicate (nat (6 * rings)) zero_cell"
proof -
  have "nat (hex_size rings) = length mem" using assms by simp
  moreover have "nat (hex_size (rings + 1)) - nat (hex_size rings) = nat (6 * rings)"
    using assms by (simp add: hex_size_step)
  ultimately show ?thesis by (simp add: realloc_memory_def Let_def)
qed

lemma grow_spec:
  "1 \<le> rings \<Longrightarrow> int (length mem) = hex_size rings
   \<Longrightarrow> get_memory_cell_grow index mem rings = (mem', rings')
   \<Longrightarrow> rings \<le> rings' \<and> int (length mem') = hex_size rings' \<and> int index < hex_size rings'
       \<and> (\<exists>k. mem' = mem @ replicate k zero_cell)"
proof (induction index mem rings rule: get_memory_cell_grow.induct)
  case (1 index mem rings)
  show ?case
  proof (cases "int index \<ge> hex_size rings")
    case True
    let ?m = "realloc_memory mem rings (rings + 1)"
    have m: "?m = mem @ replicate (nat (6 * rings)) zero_cell"
      using "1.prems" by (simp add: realloc_memory_next)
    have len: "int (length ?m) = hex_size (rings + 1)"
      using "1.prems" by (simp add: m hex_size_step)
    have rec: "get_memory_cell_grow index ?m (rings + 1) = (mem', rings')"
      using "1.prems"(3) True by (subst (asm) get_memory_cell_grow.simps) simp
    have "rings + 1 \<le> rings' \<and> int (length mem') = hex_size rings' \<and> int index < hex_size rings'
       \<and> (\<exists>k. mem' = ?m @ replicate k zero_cell)"
      using "1.IH" [OF True _ len rec] "1.prems"(1) by simp
    then show ?thesis by (auto simp: m replicate_add [symmetric])
  next
    case False
    then have "mem' = mem" "rings' = rings"
      using "1.prems"(3) by (subst (asm) get_memory_cell_grow.simps, simp)+
    then show ?thesis using False "1.prems" by simp
  qed
qed

lemma current_edge_spec:
  assumes ok: "memory_ok s" and ce: "current_edge s = (r, s1)"
  shows "r = (axial_to_mem_index (mp_p (MP s)) (mp_q (MP s)), mp_axis (MP s))"
    and "memory_ok s1" and "fst r < length (memory s1)"
    and "IPs s1 = IPs s" and "IP_index s1 = IP_index s" and "MP s1 = MP s"
    and "edge_value s1 r' = edge_value s r'"
proof -
  obtain mem' rings' where g: "get_memory_cell_grow (axial_to_mem_index (mp_p (MP s)) (mp_q (MP s)))
      (memory s) (memory_rings s) = (mem', rings')"
    by (cases "get_memory_cell_grow (axial_to_mem_index (mp_p (MP s)) (mp_q (MP s))) (memory s) (memory_rings s)")
  from ce g have r: "r = (axial_to_mem_index (mp_p (MP s)) (mp_q (MP s)), mp_axis (MP s))"
    and s1: "s1 = s\<lparr>memory := mem', memory_rings := rings'\<rparr>"
    by (auto simp: current_edge_def get_memory_edge_def get_memory_cell_def Let_def)
  from ok have "1 \<le> memory_rings s" "int (length (memory s)) = hex_size (memory_rings s)"
    by (simp_all add: memory_ok_def)
  from grow_spec [OF this g] obtain k where
    gs: "memory_rings s \<le> rings'" "int (length mem') = hex_size rings'"
        "int (axial_to_mem_index (mp_p (MP s)) (mp_q (MP s))) < hex_size rings'"
        "mem' = memory s @ replicate k zero_cell"
    by auto
  show "r = (axial_to_mem_index (mp_p (MP s)) (mp_q (MP s)), mp_axis (MP s))" by (rule r)
  show "memory_ok s1" using ok gs by (auto simp: memory_ok_def s1 zero_cell_def list_all_iff)
  show "fst r < length (memory s1)" using gs(2,3) by (simp add: r s1)
  show "IPs s1 = IPs s" "IP_index s1 = IP_index s" "MP s1 = MP s" by (simp_all add: s1)
  show "edge_value s1 r' = edge_value s r'"
    by (cases "snd r'") (auto simp: edge_value_def s1 gs(4) load_edge_def nth_append zero_cell_def)
qed

lemma axis_idx_inj: "axis_idx a = axis_idx b \<longleftrightarrow> a = b"
  by (cases a; cases b) simp_all

lemma axis_idx_less: "axis_idx a < 3"
  by (cases a) simp_all

lemma edge_value_set_edge:
  assumes "memory_ok s" "fst r < length (memory s)"
  shows "edge_value (set_edge r v s) r' = (if r' = r then v else edge_value s r')"
proof -
  have len: "length (memory s ! fst r) = 3"
    using assms by (simp add: memory_ok_def list_all_length)
  show ?thesis
    using assms(2) len axis_idx_less [of "snd r"]
    by (cases r; cases r') (auto simp: edge_value_def set_edge_def store_edge_def load_edge_def
        nth_list_update axis_idx_inj)
qed

lemma memory_ok_set_edge:
  assumes "memory_ok s"
  shows "memory_ok (set_edge r v s)"
proof -
  have "length (((memory s)[fst r := (memory s ! fst r)[axis_idx (snd r) := v]]) ! n) = 3"
    if "n < length (memory s)" for n
    using that assms by (cases "fst r = n") (auto simp: memory_ok_def list_all_length)
  then show ?thesis
    using assms by (simp add: memory_ok_def set_edge_def store_edge_def list_all_length)
qed

lemma set_edge_frame:
  "IPs (set_edge r v s) = IPs s" "IP_index (set_edge r v s) = IP_index s" "MP (set_edge r v s) = MP s"
  "length (memory (set_edge r v s)) = length (memory s)"
  by (simp_all add: set_edge_def store_edge_def)

lemma get_edge_edge_value: "fst r < length (memory s) \<Longrightarrow> get_edge r s = edge_value s r"
  by (simp add: get_edge_def edge_value_def)

subsection \<open>The shape of the memory is an invariant\<close>

lemma memory_ok_init: "memory_ok (init_machine program_rings)" "memory_ok (init_machine_top program_rings)"
  by (simp_all add: memory_ok_def init_machine_def init_machine_top_def hex_size_def zero_cell_def)

lemma memory_ok_frame:
  "memory_ok (s\<lparr>IP_index := k\<rparr>) = memory_ok s"
  "memory_ok (s\<lparr>IPs := ips\<rparr>) = memory_ok s"
  "memory_ok (s\<lparr>MP := ptr\<rparr>) = memory_ok s"
  by (simp_all add: memory_ok_def)

lemma get_memory_cell_ok:
  assumes ok: "memory_ok s"
    and g: "get_memory_cell p q (memory s) (memory_rings s) = (i, mem', rings')"
  shows "memory_ok (s\<lparr>memory := mem', memory_rings := rings'\<rparr>)" and "i < length mem'"
proof -
  from g have gg: "get_memory_cell_grow (axial_to_mem_index p q) (memory s) (memory_rings s) = (mem', rings')"
    and i: "i = axial_to_mem_index p q"
    by (auto simp: get_memory_cell_def Let_def split: prod.splits)
  from ok have "1 \<le> memory_rings s" "int (length (memory s)) = hex_size (memory_rings s)"
    by (simp_all add: memory_ok_def)
  from grow_spec [OF this gg] obtain k where
    gs: "memory_rings s \<le> rings'" "int (length mem') = hex_size rings'"
        "int (axial_to_mem_index p q) < hex_size rings'"
        "mem' = memory s @ replicate k zero_cell"
    by auto
  show "memory_ok (s\<lparr>memory := mem', memory_rings := rings'\<rparr>)"
    using ok gs by (auto simp: memory_ok_def zero_cell_def list_all_iff)
  show "i < length mem'" using gs(2,3) i by simp
qed

lemma neighbor_edge_ok:
  assumes "memory_ok s" "neighbor_edge nb s = (r, s1)"
  shows "memory_ok s1"
proof -
  define xyz where "xyz = (if mp_direction (MP s) = OUT
      then shift_xyz (mp_axis (MP s)) (neighbor_axis (mp_axis (MP s)) nb)
             [mp_p (MP s), mp_q (MP s), - mp_p (MP s) - mp_q (MP s)]
      else [mp_p (MP s), mp_q (MP s), - mp_p (MP s) - mp_q (MP s)])"
  obtain i mem' rings' where
    g: "get_memory_cell (xyz ! axis_idx X) (xyz ! axis_idx Y) (memory s) (memory_rings s) = (i, mem', rings')"
    by (rule prod_cases3)
  have "get_neighbor (MP s) nb (memory s) (memory_rings s)
      = ((i, neighbor_axis (mp_axis (MP s)) nb), mem', rings')"
    unfolding get_neighbor_def Let_def xyz_def [symmetric] g by simp
  then have "s1 = s\<lparr>memory := mem', memory_rings := rings'\<rparr>"
    using assms(2) by (simp add: neighbor_edge_def)
  with get_memory_cell_ok(1) [OF assms(1) g] show ?thesis by simp
qed

lemma binop_ok:
  assumes "memory_ok s" "binop f s = Some s'"
  shows "memory_ok s'"
proof -
  obtain e s1 where ce: "current_edge s = (e, s1)" by (cases "current_edge s")
  obtain l s2 where nl: "neighbor_edge LEFT s1 = (l, s2)" by (cases "neighbor_edge LEFT s1")
  obtain r s3 where nr: "neighbor_edge RIGHT s2 = (r, s3)" by (cases "neighbor_edge RIGHT s2")
  have "memory_ok s1" using current_edge_spec(2) [OF assms(1) ce] .
  then have "memory_ok s2" using nl by (rule neighbor_edge_ok)
  then have ok3: "memory_ok s3" using nr by (rule neighbor_edge_ok)
  have b: "binop f s = (case f (get_edge l s3) (get_edge r s3) of
      None \<Rightarrow> None | Some v \<Rightarrow> Some (set_edge e v s3))"
    by (simp add: binop_def ce nl nr)
  show ?thesis
  proof (cases "f (get_edge l s3) (get_edge r s3)")
    case None
    with b assms(2) show ?thesis by simp
  next
    case (Some v)
    with b assms(2) have "s' = set_edge e v s3" by simp
    with ok3 show ?thesis by (simp add: memory_ok_set_edge)
  qed
qed


lemma current_edge_ok: "memory_ok s \<Longrightarrow> memory_ok (snd (current_edge s))"
  using current_edge_spec(2) [of s "fst (current_edge s)" "snd (current_edge s)"] by simp

lemma neighbor_edge_top_ok:
  assumes "memory_ok s" "neighbor_edge_top nb s = (r, s1)"
  shows "memory_ok s1"
proof -
  define xyz where "xyz = (if mp_direction (MP s) = OUT
      then switch_axis_top (mp_axis (MP s)) nb
             [mp_p (MP s), mp_q (MP s), - mp_p (MP s) - mp_q (MP s)]
      else [mp_p (MP s), mp_q (MP s), - mp_p (MP s) - mp_q (MP s)])"
  obtain i mem' rings' where
    g: "get_memory_cell (xyz ! axis_idx X) (xyz ! axis_idx Y) (memory s) (memory_rings s) = (i, mem', rings')"
    by (rule prod_cases3)
  have "get_neighbor_top (MP s) nb (memory s) (memory_rings s)
      = ((i, neighbor_axis (mp_axis (MP s)) nb), mem', rings')"
    unfolding get_neighbor_top_def Let_def xyz_def [symmetric] g by simp
  then have "s1 = s\<lparr>memory := mem', memory_rings := rings'\<rparr>"
    using assms(2) by (simp add: neighbor_edge_top_def)
  with get_memory_cell_ok(1) [OF assms(1) g] show ?thesis by simp
qed

lemma binop_top_ok:
  assumes "memory_ok s" "binop_top f s = Some s'"
  shows "memory_ok s'"
proof -
  obtain e s1 where ce: "current_edge s = (e, s1)" by (cases "current_edge s")
  obtain l s2 where nl: "neighbor_edge_top LEFT s1 = (l, s2)" by (cases "neighbor_edge_top LEFT s1")
  obtain r s3 where nr: "neighbor_edge_top RIGHT s2 = (r, s3)" by (cases "neighbor_edge_top RIGHT s2")
  have "memory_ok s1" using current_edge_spec(2) [OF assms(1) ce] .
  then have "memory_ok s2" using nl by (rule neighbor_edge_top_ok)
  then have ok3: "memory_ok s3" using nr by (rule neighbor_edge_top_ok)
  have b: "binop_top f s = (case f (get_edge l s3) (get_edge r s3) of
      None \<Rightarrow> None | Some v \<Rightarrow> Some (set_edge e v s3))"
    by (simp add: binop_top_def ce nl nr)
  show ?thesis
  proof (cases "f (get_edge l s3) (get_edge r s3)")
    case None
    with b assms(2) show ?thesis by simp
  next
    case (Some v)
    with b assms(2) have "s' = set_edge e v s3" by simp
    with ok3 show ?thesis by (simp add: memory_ok_set_edge)
  qed
qed

lemma neighbor_edge_top_snd_ok: "memory_ok s \<Longrightarrow> memory_ok (snd (neighbor_edge_top nb s))"
  using neighbor_edge_top_ok [of s nb "fst (neighbor_edge_top nb s)" "snd (neighbor_edge_top nb s)"] by simp

lemma neighbor_edge_snd_ok: "memory_ok s \<Longrightarrow> memory_ok (snd (neighbor_edge nb s))"
  using neighbor_edge_ok [of s nb "fst (neighbor_edge nb s)" "snd (neighbor_edge nb s)"] by simp

lemma set_direction_ok: "memory_ok (set_direction d s) = memory_ok s"
  by (simp add: set_direction_def memory_ok_frame)

lemma branch_ok: "memory_ok s \<Longrightarrow> memory_ok (branch_less s)" "memory_ok s \<Longrightarrow> memory_ok (branch_greater s)"
  by (simp_all add: branch_less_def branch_greater_def set_direction_ok current_edge_ok
      case_prod_beta split: direction.splits)

lemma dispatch_memory_ok:
  assumes "memory_ok s" "dispatch inp c s = Some s'"
  shows "memory_ok s'"
proof -
  note ok = assms(1) current_edge_ok [OF assms(1)]
  have b: "binop f s = Some s' \<Longrightarrow> memory_ok s'" for f
    using assms(1) by (rule binop_ok)
  show ?thesis
    using assms(2) ok b
    by (auto simp: dispatch_def Let_def case_prod_beta memory_ok_set_edge memory_ok_frame
        set_direction_ok branch_ok neighbor_edge_snd_ok split: if_splits)
qed


lemma dispatch_top_memory_ok:
  assumes "memory_ok s" "dispatch_top inp c s = Some s'"
  shows "memory_ok s'"
proof -
  note ok = assms(1) current_edge_ok [OF assms(1)]
  have b: "binop_top f s = Some s' \<Longrightarrow> memory_ok s'" for f
    using assms(1) by (rule binop_top_ok)
  show ?thesis
    using assms(2) ok b
    by (auto simp: dispatch_top_def Let_def case_prod_beta memory_ok_set_edge memory_ok_frame
        set_direction_ok branch_ok neighbor_edge_top_snd_ok split: if_splits)
qed

subsection \<open>The digit, bracket and \<^verbatim>\<open>#\<close> instructions\<close>

lemma isdigit_not_isalpha: "isdigit c \<Longrightarrow> \<not> isalpha c"
  by (auto simp: isdigit_def isalpha_def Let_def)

lemma digit_val: "isdigit c \<Longrightarrow> char_val c - char_val CHR ''0'' = of_nat (of_char c - 48)"
  by (simp add: isdigit_def char_val_def Let_def)

lemma digit_val_top: "isdigit c \<Longrightarrow> 1 * char_val c - char_val CHR ''0'' = of_nat (of_char c - 48)"
  by (simp add: isdigit_def char_val_def Let_def)

lemma dispatch_digit:
  assumes ok: "memory_ok s" and dig: "isdigit c"
    and r: "r = (axial_to_mem_index (mp_p (MP s)) (mp_q (MP s)), mp_axis (MP s))"
    and e10: "e10 = edge_value s r * 10"
    and d: "d = of_nat (of_char c - 48)"
  shows "\<exists>s'. dispatch inp c s = Some s'
            \<and> edge_value s' r = e10 + (if sint e10 < 0 then - d else d)
            \<and> (\<forall>r'. r' \<noteq> r \<longrightarrow> edge_value s' r' = edge_value s r')
            \<and> IPs s' = IPs s \<and> IP_index s' = IP_index s \<and> MP s' = MP s"
proof -
  obtain r0 s1 where ce: "current_edge s = (r0, s1)" by (cases "current_edge s")
  note c = current_edge_spec [OF ok ce]
  have r0: "r0 = r" using c(1) r by simp
  define s2 where "s2 = set_edge r (get_edge r s1 * 10) s1"
  define s3 where "s3 = set_edge r (get_edge r s2
      + (if sint (get_edge r s2) < 0 then - 1 else 1) * (char_val c - char_val CHR ''0'')) s2"
  have disp: "dispatch inp c s = Some s3"
    using dig isdigit_not_isalpha [OF dig]
    by (simp add: dispatch_def ce r0 Let_def s2_def s3_def)
  have in1: "fst r < length (memory s1)" using c(3) r0 by simp
  have ok2: "memory_ok s2" unfolding s2_def using c(2) by (rule memory_ok_set_edge)
  have in2: "fst r < length (memory s2)" using in1 by (simp add: s2_def set_edge_frame)
  have g1: "get_edge r s1 = edge_value s r"
    using in1 c(7) [of r] by (simp add: get_edge_edge_value)
  have ev2: "edge_value s2 r' = (if r' = r then e10 else edge_value s r')" for r'
    unfolding s2_def using c(2) in1 c(7) [of r'] by (simp add: edge_value_set_edge g1 e10)
  have g2: "get_edge r s2 = e10" using in2 ev2 [of r] by (simp add: get_edge_edge_value)
  have ev3: "edge_value s3 r' = (if r' = r then e10 + (if sint e10 < 0 then - d else d) else edge_value s r')" for r'
    unfolding s3_def using ok2 in2 ev2 [of r'] by (simp add: edge_value_set_edge g2 digit_val [OF dig] d)
  have "IPs s3 = IPs s" "IP_index s3 = IP_index s" "MP s3 = MP s"
    by (simp_all add: s3_def s2_def set_edge_frame c)
  with disp ev3 show ?thesis by simp
qed

lemma dispatch_top_digit:
  assumes ok: "memory_ok s" and dig: "isdigit c"
    and r: "r = (axial_to_mem_index (mp_p (MP s)) (mp_q (MP s)), mp_axis (MP s))"
    and e10: "e10 = edge_value s r * 10"
    and d: "d = of_nat (of_char c - 48)"
  shows "\<exists>s'. dispatch_top inp c s = Some s'
            \<and> (0 \<le> sint e10 \<longrightarrow> edge_value s' r = e10 + d)
            \<and> (\<forall>r'. r' \<noteq> r \<longrightarrow> edge_value s' r' = edge_value s r')
            \<and> IPs s' = IPs s \<and> IP_index s' = IP_index s \<and> MP s' = MP s"
proof -
  obtain r0 s1 where ce: "current_edge s = (r0, s1)" by (cases "current_edge s")
  note c = current_edge_spec [OF ok ce]
  have r0: "r0 = r" using c(1) r by simp
  define s2 where "s2 = set_edge r (get_edge r s1 * 10) s1"
  define v where "v = get_edge r s2
      + ((if sint (get_edge r s2) < 0 then - 1 else 1) * char_val c - char_val CHR ''0'')"
  define s3 where "s3 = set_edge r v s2"
  have disp: "dispatch_top inp c s = Some s3"
    using dig isdigit_not_isalpha [OF dig]
    by (simp add: dispatch_top_def ce r0 Let_def s2_def s3_def v_def)
  have in1: "fst r < length (memory s1)" using c(3) r0 by simp
  have ok2: "memory_ok s2" unfolding s2_def using c(2) by (rule memory_ok_set_edge)
  have in2: "fst r < length (memory s2)" using in1 by (simp add: s2_def set_edge_frame)
  have g1: "get_edge r s1 = edge_value s r"
    using in1 c(7) [of r] by (simp add: get_edge_edge_value)
  have ev2: "edge_value s2 r' = (if r' = r then e10 else edge_value s r')" for r'
    unfolding s2_def using c(2) in1 c(7) [of r'] by (simp add: edge_value_set_edge g1 e10)
  have g2: "get_edge r s2 = e10" using in2 ev2 [of r] by (simp add: get_edge_edge_value)
  have ev3: "edge_value s3 r' = (if r' = r then v else edge_value s r')" for r'
    unfolding s3_def using ok2 in2 ev2 [of r'] by (simp add: edge_value_set_edge)
  have vv: "0 \<le> sint e10 \<Longrightarrow> v = e10 + d"
    using digit_val_top [OF dig] by (simp add: v_def g2 d)
  have "IPs s3 = IPs s" "IP_index s3 = IP_index s" "MP s3 = MP s"
    by (simp_all add: s3_def s2_def set_edge_frame c)
  with disp ev3 vv show ?thesis by simp
qed

lemma sint_times_10:
  fixes e :: "32 word"
  assumes "- (2 ^ 31) \<le> sint e * 10" "sint e * 10 < 2 ^ 31"
  shows "sint (e * 10) = sint e * 10"
proof -
  have "sint (e * 10) = signed_take_bit 31 (sint e * sint (10 :: 32 word))"
    by (simp add: sint_word_ariths)
  also have "\<dots> = signed_take_bit 31 (sint e * 10)" by simp
  also have "\<dots> = sint e * 10"
    using assms by (simp add: signed_take_bit_int_eq_self)
  finally show ?thesis .
qed

lemma modulo_6: "modulo_long a 6 = a mod 6"
  by (rule modulo_pos) simp

lemma dispatch_brackets:
  "dispatch inp CHR ''['' s = Some (s\<lparr>IP_index := (IP_index s - 1) mod 6\<rparr>)"
  "dispatch inp CHR '']'' s = Some (s\<lparr>IP_index := (IP_index s + 1) mod 6\<rparr>)"
  by (simp_all add: dispatch_def isalpha_def isdigit_def modulo_6)

lemma dispatch_top_brackets:
  "dispatch_top inp CHR ''['' s = Some (s\<lparr>IP_index := (IP_index s + 1) mod 6\<rparr>)"
  "dispatch_top inp CHR '']'' s = Some (s\<lparr>IP_index := (IP_index s - 1) mod 6\<rparr>)"
  by (simp_all add: dispatch_top_def isalpha_def isdigit_def modulo_6)

lemma edge_value_IP_index: "edge_value (s\<lparr>IP_index := k\<rparr>) r = edge_value s r"
  by (simp add: edge_value_def)

lemma dispatch_hash:
  assumes ok: "memory_ok s"
    and r: "r = (axial_to_mem_index (mp_p (MP s)) (mp_q (MP s)), mp_axis (MP s))"
  shows "\<exists>s'. dispatch inp CHR ''#'' s = Some s'
            \<and> IP_index s' = sint (edge_value s r) mod 6
            \<and> MP s' = MP s \<and> IPs s' = IPs s
            \<and> (\<forall>r'. edge_value s' r' = edge_value s r')"
proof -
  obtain r0 s1 where ce: "current_edge s = (r0, s1)" by (cases "current_edge s")
  note c = current_edge_spec [OF ok ce]
  have r0: "r0 = r" using c(1) r by simp
  have g1: "get_edge r s1 = edge_value s r"
    using c(3) c(7) [of r] by (simp add: get_edge_edge_value r0)
  have "dispatch inp CHR ''#'' s = Some (s1\<lparr>IP_index := sint (edge_value s r) mod 6\<rparr>)"
    by (simp add: dispatch_def isalpha_def isdigit_def ce r0 g1 modulo_6)
  moreover have "edge_value (s1\<lparr>IP_index := k\<rparr>) r' = edge_value s r'" for k r'
    using c(7) [of r'] by (simp add: edge_value_IP_index)
  ultimately show ?thesis using c(4,6) by simp
qed

lemma dispatch_top_hash:
  assumes ok: "memory_ok s"
    and r: "r = (axial_to_mem_index (mp_p (MP s)) (mp_q (MP s)), mp_axis (MP s))"
  shows "\<exists>s'. dispatch_top inp CHR ''#'' s = Some s'
            \<and> IP_index s' = sint (edge_value s r) mod 6
            \<and> MP s' = move_mp_top (MP s) LEFT"
proof -
  obtain r0 s1 where ce: "current_edge s = (r0, s1)" by (cases "current_edge s")
  note c = current_edge_spec [OF ok ce]
  have r0: "r0 = r" using c(1) r by simp
  have g1: "get_edge r s1 = edge_value s r"
    using c(3) c(7) [of r] by (simp add: get_edge_edge_value r0)
  have "dispatch_top inp CHR ''#'' s
      = Some (s1\<lparr>IP_index := sint (edge_value s r) mod 6, MP := move_mp_top (MP s) LEFT\<rparr>)"
    by (simp add: dispatch_top_def isalpha_def isdigit_def ce r0 g1 modulo_6 Let_def c(6))
  then show ?thesis by simp
qed

subsection \<open>The claims about instructions and startup\<close>

lemma memory_ok_example: "memory_ok ((init_machine 1)\<lparr>memory := [[0, 0, v]]\<rparr>)"
  by (simp add: memory_ok_def init_machine_def hex_size_def)

text \<open>
  C1. Executing \<^verbatim>\<open>[\<close> should set the active index to \<open>(active - 1) mod 6\<close> and \<^verbatim>\<open>]\<close> to
  \<open>(active + 1) mod 6\<close>. The dispatch of \<^verbatim>\<open>src/src/hexagony.c\<close> does so for every state
  (the lemma above). The dispatch of \<^verbatim>\<open>src/hexagony.c\<close> has the two arms the other way
  round, against its own comments (\<^verbatim>\<open>// switches to the previous IP\<close> over the arm of \<^verbatim>\<open>[\<close>,
  which adds 1): from the active index 0, \<^verbatim>\<open>[\<close> leads to 1 and \<^verbatim>\<open>]\<close> to 5 there, where
  the other file and the claim have 5 and 1.
\<close>

theorem brackets_top_swapped:
  "IP_index (init_machine_top 1) = 0
   \<and> dispatch_top 0 CHR ''['' (init_machine_top 1) = Some ((init_machine_top 1)\<lparr>IP_index := 1\<rparr>)
   \<and> dispatch_top 0 CHR '']'' (init_machine_top 1) = Some ((init_machine_top 1)\<lparr>IP_index := 5\<rparr>)
   \<and> dispatch 0 CHR ''['' (init_machine 1) = Some ((init_machine 1)\<lparr>IP_index := 5\<rparr>)
   \<and> dispatch 0 CHR '']'' (init_machine 1) = Some ((init_machine 1)\<lparr>IP_index := 1\<rparr>)"
  by (simp add: dispatch_brackets dispatch_top_brackets init_machine_def init_machine_top_def)

text \<open>
  The digit rule fails as stated when the multiplication by ten wraps: with the current edge
  at 214748365 the product wraps to a negative number, the code tests the sign of the
  product, and the digit 1 is subtracted, where \<open>e * 10 + (e < 0 ? -d : +d)\<close> adds it.
\<close>

theorem digit_counterexample:
  "dispatch 0 CHR ''1'' ((init_machine 1)\<lparr>memory := [[0, 0, 214748365]]\<rparr>)
     = Some ((init_machine 1)\<lparr>memory := [[0, 0, 2147483649]]\<rparr>)
   \<and> (2147483649 :: 32 word) \<noteq> 214748365 * 10 + (if sint (214748365 :: 32 word) < 0 then - 1 else 1)"
  by (simp add: dispatch_def isalpha_def isdigit_def init_machine_def current_edge_def
      get_memory_edge_def get_memory_cell_def get_memory_cell_grow.simps axial_to_mem_index_def
      hex_size_def set_edge_def get_edge_def store_edge_def load_edge_def char_val_def Let_def)

text \<open>
  The digit arm of \<^verbatim>\<open>src/hexagony.c\<close> reads \<^verbatim>\<open>(*edge < 0 ? -1 : 1) * instruction->value - '0'\<close>:
  the parentheses around the subtraction are missing, against the comment over the arm. With
  the current edge at \<open>- 4\<close> the digit 2 gives \<open>- 138\<close> there, and \<open>- 42\<close> in
  \<^verbatim>\<open>src/src/hexagony.c\<close>. This is a defect of that file and no part of the statement below.
\<close>

lemma dispatch_top_digit_slip:
  "dispatch_top 0 CHR ''2'' ((init_machine_top 1)\<lparr>memory := [[0, 0, - 4]]\<rparr>)
     = Some ((init_machine_top 1)\<lparr>memory := [[0, 0, - 138]]\<rparr>)"
  "dispatch 0 CHR ''2'' ((init_machine 1)\<lparr>memory := [[0, 0, - 4]]\<rparr>)
     = Some ((init_machine 1)\<lparr>memory := [[0, 0, - 42]]\<rparr>)"
  by (simp_all add: dispatch_top_def dispatch_def isalpha_def isdigit_def init_machine_top_def
      init_machine_def current_edge_def get_memory_edge_def get_memory_cell_def
      get_memory_cell_grow.simps axial_to_mem_index_def hex_size_def set_edge_def get_edge_def
      store_edge_def load_edge_def char_val_def Let_def)

text \<open>
  C2, as amended. For every digit instruction with digit \<open>d\<close> and every current-edge value
  \<open>e\<close>, executing the digit sets the current edge to \<open>e10 + (e10 < 0 ? -d : +d)\<close>, where
  \<open>e10\<close> is the wrapped product \<open>e * 10\<close>: the sign that is tested is the one of the
  product. This is \<open>e * 10 + (e < 0 ? -d : +d)\<close> whenever \<open>e * 10\<close> does not overflow 32
  bits. All other edges are unchanged. The statement is about the dispatch of
  \<^verbatim>\<open>src/src/hexagony.c\<close>.
\<close>

theorem digit_appends:
  assumes "memory_ok s" and "isdigit c"
    and "r = (axial_to_mem_index (mp_p (MP s)) (mp_q (MP s)), mp_axis (MP s))"
    and "e = edge_value s r" and "d = of_nat (of_char c - 48)"
  shows "\<exists>s'. dispatch inp c s = Some s'
            \<and> edge_value s' r = e * 10 + (if sint (e * 10) < 0 then - d else d)
            \<and> (- (2 ^ 31) \<le> sint e * 10 \<and> sint e * 10 < 2 ^ 31
                 \<longrightarrow> edge_value s' r = e * 10 + (if sint e < 0 then - d else d))
            \<and> (\<forall>r'. r' \<noteq> r \<longrightarrow> edge_value s' r' = edge_value s r')"
proof -
  have e10: "e * 10 = edge_value s r * 10" using assms(4) by simp
  from dispatch_digit [OF assms(1,2,3) e10 assms(5), of inp]
  obtain s' where s': "dispatch inp c s = Some s'"
      "edge_value s' r = e * 10 + (if sint (e * 10) < 0 then - d else d)"
      "\<forall>r'. r' \<noteq> r \<longrightarrow> edge_value s' r' = edge_value s r'"
    by blast
  have "edge_value s' r = e * 10 + (if sint e < 0 then - d else d)"
    if "- (2 ^ 31) \<le> sint e * 10 \<and> sint e * 10 < 2 ^ 31"
  proof -
    have "sint (e * 10) = sint e * 10" using that by (simp add: sint_times_10)
    then have "sint (e * 10) < 0 \<longleftrightarrow> sint e < 0" by simp
    then show ?thesis using s'(2) by simp
  qed
  with s' show ?thesis by blast
qed

theorem digit_appends_witness:
  "memory_ok ((init_machine 1)\<lparr>memory := [[0, 0, 4]]\<rparr>) \<and> isdigit CHR ''2''
   \<and> edge_value ((init_machine 1)\<lparr>memory := [[0, 0, 4]]\<rparr>) (0, Z) = 4
   \<and> (\<exists>s'. dispatch 0 CHR ''2'' ((init_machine 1)\<lparr>memory := [[0, 0, 4]]\<rparr>) = Some s'
          \<and> edge_value s' (0, Z) = 42)"
proof -
  let ?s = "(init_machine 1)\<lparr>memory := [[0, 0, 4]]\<rparr>"
  have h1: "memory_ok ?s" by (rule memory_ok_example)
  have h2: "isdigit CHR ''2''" by (simp add: isdigit_def)
  have h3: "(0, Z) = (axial_to_mem_index (mp_p (MP ?s)) (mp_q (MP ?s)), mp_axis (MP ?s))"
    by (simp add: init_machine_def axial_to_mem_index_def)
  have h4: "(4 :: 32 word) = edge_value ?s (0, Z)"
    by (simp add: edge_value_def load_edge_def)
  have h5: "(2 :: 32 word) = of_nat (of_char CHR ''2'' - 48)" by simp
  have s: "sint ((4 :: 32 word) * 10) = 40" by simp
  from digit_appends [OF h1 h2 h3 h4 h5, of 0] show ?thesis
    using h1 h2 h4 [symmetric] by (simp add: s) blast
qed

text \<open>
  C3. Executing \<^verbatim>\<open>#\<close> should set the active index to the current edge modulo 6 and change
  nothing else. The dispatch of \<^verbatim>\<open>src/src/hexagony.c\<close> does so (the lemma on \<^verbatim>\<open>#\<close> above).
  In \<^verbatim>\<open>src/hexagony.c\<close> the arm of \<^verbatim>\<open>#\<close> has no \<^verbatim>\<open>break\<close> and runs on into the arm of \<^verbatim>\<open>{\<close>:
  from the initial state it also moves the memory pointer from \<open>(0, 0, Z, IN)\<close> to
  \<open>(0, 0, Y, OUT)\<close>, where the other file leaves the state as it is.
\<close>

theorem hash_top_falls_through:
  "MP (init_machine_top 1) = \<lparr>mp_p = 0, mp_q = 0, mp_axis = Z, mp_direction = IN\<rparr>
   \<and> dispatch_top 0 CHR ''#'' (init_machine_top 1)
     = Some ((init_machine_top 1)\<lparr>MP := \<lparr>mp_p = 0, mp_q = 0, mp_axis = Y, mp_direction = OUT\<rparr>\<rparr>)
   \<and> dispatch 0 CHR ''#'' (init_machine 1) = Some (init_machine 1)"
  by (simp add: dispatch_top_def dispatch_def isalpha_def isdigit_def init_machine_top_def init_machine_def current_edge_def
      get_memory_edge_def get_memory_cell_def get_memory_cell_grow.simps axial_to_mem_index_def
      hex_size_def get_edge_def load_edge_def zero_cell_def Let_def modulo_6
      move_mp_top_IN neighbor_axis_simps)

text \<open>In \<^verbatim>\<open>src/hexagony.c\<close> the memory pointer does not start with the orientation \<^verbatim>\<open>OUT\<close>.\<close>

theorem initial_memory_pointer_counterexample:
  "MP (init_machine_top 1) \<noteq> \<lparr>mp_p = 0, mp_q = 0, mp_axis = Z, mp_direction = OUT\<rparr>"
  by (simp add: init_machine_top_def)

text \<open>
  C4, as amended. When the loop of \<^verbatim>\<open>main\<close> is entered the memory pointer is at
  \<open>p = 0\<close>, \<open>q = 0\<close> on the axis \<open>Z\<close>; its orientation is \<^verbatim>\<open>OUT\<close> in \<^verbatim>\<open>src/src/hexagony.c\<close>
  and \<^verbatim>\<open>IN\<close> in \<^verbatim>\<open>src/hexagony.c\<close>.
\<close>

theorem initial_memory_pointer:
  "MP (init_machine program_rings) = \<lparr>mp_p = 0, mp_q = 0, mp_axis = Z, mp_direction = OUT\<rparr>
   \<and> MP (init_machine_top program_rings) = \<lparr>mp_p = 0, mp_q = 0, mp_axis = Z, mp_direction = IN\<rparr>"
  by (simp add: init_machine_def init_machine_top_def)

subsection \<open>The claims about the memory pointer\<close>

text \<open>
  From \<open>(0, 0, Z, OUT)\<close> a move to the left followed by a move to the right ends at
  \<open>(0, - 1, Z, OUT)\<close>, in both files: the pointer does not return. From \<open>(0, 0, X, IN)\<close>
  the same two moves end at \<open>(1, - 1, Y, IN)\<close>, in both files: here not even the axis
  returns, because the move to the left of \<open>X\<close> stays on \<open>X\<close>.
\<close>

theorem move_mp_left_right_counterexample:
  "move_mp (move_mp \<lparr>mp_p = 0, mp_q = 0, mp_axis = Z, mp_direction = OUT\<rparr> LEFT) RIGHT
     = \<lparr>mp_p = 0, mp_q = - 1, mp_axis = Z, mp_direction = OUT\<rparr>
   \<and> move_mp_top (move_mp_top \<lparr>mp_p = 0, mp_q = 0, mp_axis = Z, mp_direction = OUT\<rparr> LEFT) RIGHT
     = \<lparr>mp_p = 0, mp_q = - 1, mp_axis = Z, mp_direction = OUT\<rparr>
   \<and> \<lparr>mp_p = 0, mp_q = - 1, mp_axis = Z, mp_direction = OUT\<rparr>
        \<noteq> \<lparr>mp_p = 0, mp_q = 0, mp_axis = Z, mp_direction = OUT\<rparr>
   \<and> move_mp (move_mp \<lparr>mp_p = 0, mp_q = 0, mp_axis = X, mp_direction = IN\<rparr> LEFT) RIGHT
     = \<lparr>mp_p = 1, mp_q = - 1, mp_axis = Y, mp_direction = IN\<rparr>
   \<and> move_mp_top (move_mp_top \<lparr>mp_p = 0, mp_q = 0, mp_axis = X, mp_direction = IN\<rparr> LEFT) RIGHT
     = \<lparr>mp_p = 1, mp_q = - 1, mp_axis = Y, mp_direction = IN\<rparr>"
  by (simp add: move_mp_OUT move_mp_IN move_mp_top_OUT move_mp_top_IN neighbor_axis_simps)

text \<open>
  C8, as amended. For every memory-pointer state, \<^verbatim>\<open>move_mp\<close> with \<^verbatim>\<open>LEFT\<close> and then with
  \<^verbatim>\<open>RIGHT\<close> (and symmetrically \<^verbatim>\<open>RIGHT\<close> then \<^verbatim>\<open>LEFT\<close>) restores the orientation but does not
  return the pointer to its original state. When no move to the left is made from the axis
  \<open>X\<close> (the pointer does not start on \<open>X\<close> for \<^verbatim>\<open>LEFT\<close> then \<^verbatim>\<open>RIGHT\<close>, nor on \<open>Z\<close> for
  \<^verbatim>\<open>RIGHT\<close> then \<^verbatim>\<open>LEFT\<close>), the two moves restore the axis as well and leave the pointer on a
  neighbouring cell, at hexagonal distance 1 from where it started; the pointer then returns
  to exactly its original state when the second move is made with the orientation reversed
  before and after it: \<^verbatim>\<open>LEFT\<close> is undone by reverse, \<^verbatim>\<open>RIGHT\<close>, reverse, and \<^verbatim>\<open>RIGHT\<close> by
  reverse, \<^verbatim>\<open>LEFT\<close>, reverse. This holds in both files, which agree on these moves. A move to
  the left from the axis \<open>X\<close> is left out of these last statements.
\<close>

theorem move_mp_left_right:
  fixes ptr :: memory_pointer
  shows "mp_direction (move_mp (move_mp ptr LEFT) RIGHT) = mp_direction ptr
       \<and> mp_direction (move_mp (move_mp ptr RIGHT) LEFT) = mp_direction ptr
       \<and> mp_direction (move_mp_top (move_mp_top ptr LEFT) RIGHT) = mp_direction ptr
       \<and> mp_direction (move_mp_top (move_mp_top ptr RIGHT) LEFT) = mp_direction ptr
       \<and> move_mp (move_mp ptr LEFT) RIGHT \<noteq> ptr
       \<and> move_mp (move_mp ptr RIGHT) LEFT \<noteq> ptr
       \<and> move_mp_top (move_mp_top ptr LEFT) RIGHT \<noteq> ptr
       \<and> move_mp_top (move_mp_top ptr RIGHT) LEFT \<noteq> ptr
       \<and> (mp_axis ptr \<noteq> X \<longrightarrow>
            mp_axis (move_mp (move_mp ptr LEFT) RIGHT) = mp_axis ptr
            \<and> \<bar>mp_p (move_mp (move_mp ptr LEFT) RIGHT) - mp_p ptr\<bar>
                + \<bar>mp_q (move_mp (move_mp ptr LEFT) RIGHT) - mp_q ptr\<bar>
                + \<bar>(mp_p (move_mp (move_mp ptr LEFT) RIGHT) + mp_q (move_mp (move_mp ptr LEFT) RIGHT))
                     - (mp_p ptr + mp_q ptr)\<bar> = 2
            \<and> toggle (move_mp (toggle (move_mp ptr LEFT)) RIGHT) = ptr
            \<and> move_mp_top (move_mp_top ptr LEFT) RIGHT = move_mp (move_mp ptr LEFT) RIGHT
            \<and> toggle (move_mp_top (toggle (move_mp_top ptr LEFT)) RIGHT) = ptr)
       \<and> (mp_axis ptr \<noteq> Z \<longrightarrow>
            mp_axis (move_mp (move_mp ptr RIGHT) LEFT) = mp_axis ptr
            \<and> \<bar>mp_p (move_mp (move_mp ptr RIGHT) LEFT) - mp_p ptr\<bar>
                + \<bar>mp_q (move_mp (move_mp ptr RIGHT) LEFT) - mp_q ptr\<bar>
                + \<bar>(mp_p (move_mp (move_mp ptr RIGHT) LEFT) + mp_q (move_mp (move_mp ptr RIGHT) LEFT))
                     - (mp_p ptr + mp_q ptr)\<bar> = 2
            \<and> toggle (move_mp (toggle (move_mp ptr RIGHT)) LEFT) = ptr
            \<and> move_mp_top (move_mp_top ptr RIGHT) LEFT = move_mp (move_mp ptr RIGHT) LEFT
            \<and> toggle (move_mp_top (toggle (move_mp_top ptr RIGHT)) LEFT) = ptr)"
proof (cases ptr)
  case (fields p q a d)
  show ?thesis
    unfolding fields
    by (cases a; cases d)
       (simp_all add: move_mp_IN move_mp_OUT move_mp_top_IN move_mp_top_OUT
          neighbor_axis_simps toggle_simps)
qed

theorem move_mp_left_right_witness:
  "mp_axis \<lparr>mp_p = 0, mp_q = 0, mp_axis = Y, mp_direction = OUT\<rparr> \<noteq> X
   \<and> mp_axis \<lparr>mp_p = 0, mp_q = 0, mp_axis = Y, mp_direction = OUT\<rparr> \<noteq> Z
   \<and> mp_axis (move_mp (move_mp \<lparr>mp_p = 0, mp_q = 0, mp_axis = Y, mp_direction = OUT\<rparr> LEFT) RIGHT) = Y
   \<and> toggle (move_mp (toggle (move_mp \<lparr>mp_p = 0, mp_q = 0, mp_axis = Y, mp_direction = OUT\<rparr> LEFT)) RIGHT)
       = \<lparr>mp_p = 0, mp_q = 0, mp_axis = Y, mp_direction = OUT\<rparr>
   \<and> mp_axis (move_mp (move_mp \<lparr>mp_p = 0, mp_q = 0, mp_axis = Y, mp_direction = OUT\<rparr> RIGHT) LEFT) = Y
   \<and> toggle (move_mp_top (toggle (move_mp_top \<lparr>mp_p = 0, mp_q = 0, mp_axis = Y, mp_direction = OUT\<rparr> RIGHT)) LEFT)
       = \<lparr>mp_p = 0, mp_q = 0, mp_axis = Y, mp_direction = OUT\<rparr>"
proof -
  let ?ptr = "\<lparr>mp_p = 0, mp_q = 0, mp_axis = Y, mp_direction = OUT\<rparr>"
  have h1: "mp_axis ?ptr \<noteq> X" by simp
  have h2: "mp_axis ?ptr \<noteq> Z" by simp
  from move_mp_left_right [of ?ptr] h1 h2 show ?thesis by simp
qed

text \<open>
  C10. For every memory-pointer state and every side, \<^verbatim>\<open>get_neighbor\<close> addresses the same
  cell index and axis (and grows the memory in the same way) as \<^verbatim>\<open>get_memory_edge\<close> on the
  pointer moved to that side by \<^verbatim>\<open>move_mp\<close>, in each of the two files.
\<close>

theorem neighbor_is_moved_edge:
  "get_neighbor ptr side mem rings = get_memory_edge (move_mp ptr side) mem rings
   \<and> get_neighbor_top ptr side mem rings = get_memory_edge (move_mp_top ptr side) mem rings
   \<and> fst (get_memory_edge (move_mp ptr side) mem rings)
       = (axial_to_mem_index (mp_p (move_mp ptr side)) (mp_q (move_mp ptr side)), mp_axis (move_mp ptr side))
   \<and> fst (get_memory_edge (move_mp_top ptr side) mem rings)
       = (axial_to_mem_index (mp_p (move_mp_top ptr side)) (mp_q (move_mp_top ptr side)),
          mp_axis (move_mp_top ptr side))"
proof -
  have a: "get_neighbor ptr side mem rings = get_memory_edge (move_mp ptr side) mem rings"
    by (simp add: get_neighbor_def get_memory_edge_def move_mp_def Let_def)
  have b: "get_neighbor_top ptr side mem rings = get_memory_edge (move_mp_top ptr side) mem rings"
    by (simp add: get_neighbor_top_def get_memory_edge_def move_mp_top_def Let_def)
  have c: "fst (get_memory_edge q mem rings) = (axial_to_mem_index (mp_p q) (mp_q q), mp_axis q)"
    for q :: memory_pointer
    by (simp add: get_memory_edge_def get_memory_cell_def Let_def split: prod.splits)
  show ?thesis using a b c by simp
qed

subsection \<open>The reflection axis\<close>

lemma three_sum_zero:
  fixes np nq nr :: int
  assumes "nr = - np - nq" "np \<noteq> 0" "nq \<noteq> 0" "nr \<noteq> 0"
  shows "nq * nr > 0 \<or> nr * np > 0 \<or> np * nq > 0"
proof -
  consider "np > 0" "nq > 0" | "np < 0" "nq < 0" | "np > 0" "nq < 0" | "np < 0" "nq > 0"
    using assms by linarith
  then show ?thesis
  proof cases
    case 1 then show ?thesis by simp
  next
    case 2 then show ?thesis by (simp add: mult_neg_neg)
  next
    case 3
    show ?thesis
    proof (cases "nr > 0")
      case True with 3 show ?thesis by simp
    next
      case False
      with assms have "nr < 0" by simp
      with 3 show ?thesis by (simp add: mult_neg_neg)
    qed
  next
    case 4
    show ?thesis
    proof (cases "nr > 0")
      case True with 4 show ?thesis by simp
    next
      case False
      with assms have "nr < 0" by simp
      with 4 show ?thesis by (simp add: mult_neg_neg)
    qed
  qed
qed

lemma reflection_axis_assigned:
  "nr = - np - nq \<Longrightarrow> \<exists>a. fst (reflection_axis np nq nr s) = Some a"
  using three_sum_zero [of nr np nq]
  by (auto simp: reflection_axis_def Let_def split: prod.splits)

lemma advance_defined: "\<exists>s'. advance program_rings i s = Some s'"
proof -
  define ip where "ip = IPs s ! i"
  define np where "np = ip_p ip + fst (direction_offset (ip_direction ip))"
  define nq where "nq = ip_q ip + snd (direction_offset (ip_direction ip))"
  obtain r s1 where r: "reflection_axis np nq (- np - nq) s = (r, s1)" by (cases "reflection_axis np nq (- np - nq) s")
  with reflection_axis_assigned [of "- np - nq" np nq s] obtain a where "r = Some a" by auto
  with r show ?thesis
    by (cases a) (simp_all add: advance_def Let_def ip_def [symmetric] np_def [symmetric] nq_def [symmetric])
qed

text \<open>
  C5. For every position \<open>(p, q)\<close> of an instruction pointer inside the program hexagon
  and every direction it faces, if the tentative next position \<open>(np, nq, nr)\<close> leaves the
  hexagon, one of the six tests of the cascade holds, so the reflection axis is assigned
  and the step does not read it unassigned.
\<close>

theorem reflection_always_assigned:
  assumes "IPs s ! i = \<lparr>ip_p = p, ip_q = q, ip_direction = d, ignore_next = ign\<rparr>"
    and "\<bar>p\<bar> + \<bar>q\<bar> + \<bar>p + q\<bar> \<le> 2 * (program_rings - 1)"
    and "np = p + fst (direction_offset d)" and "nq = q + snd (direction_offset d)"
    and "nr = - np - nq"
    and "\<bar>np\<bar> + \<bar>nq\<bar> + \<bar>nr\<bar> \<ge> 2 * program_rings"
  shows "(np = 0 \<or> nq = 0 \<or> nr = 0 \<or> nq * nr > 0 \<or> nr * np > 0 \<or> np * nq > 0)
       \<and> (\<exists>a. fst (reflection_axis np nq nr s) = Some a)
       \<and> (\<exists>s'. advance program_rings i s = Some s')"
  using three_sum_zero [of nr np nq] reflection_axis_assigned [of nr np nq s]
    advance_defined [of program_rings i s] assms(5)
  by blast

theorem reflection_always_assigned_witness:
  "IPs (init_machine 1) ! 0 = \<lparr>ip_p = 0, ip_q = 0, ip_direction = E, ignore_next = False\<rparr>
   \<and> \<bar>0 :: int\<bar> + \<bar>0\<bar> + \<bar>0 + 0\<bar> \<le> 2 * (1 - 1)
   \<and> \<bar>- 1 :: int\<bar> + \<bar>1\<bar> + \<bar>0\<bar> \<ge> 2 * 1
   \<and> (\<exists>a. fst (reflection_axis (- 1) 1 0 (init_machine 1)) = Some a)
   \<and> (\<exists>s'. advance 1 0 (init_machine 1) = Some s')"
proof -
  have h1: "IPs (init_machine 1) ! 0 = \<lparr>ip_p = 0, ip_q = 0, ip_direction = E, ignore_next = False\<rparr>"
    by (simp add: init_machine_def init_IPs_def)
  have h2: "\<bar>0 :: int\<bar> + \<bar>0\<bar> + \<bar>0 + 0\<bar> \<le> 2 * (1 - 1)" by simp
  have h3: "(- 1 :: int) = 0 + fst (direction_offset E)" by simp
  have h4: "(1 :: int) = 0 + snd (direction_offset E)" by simp
  have h5: "(0 :: int) = - (- 1) - 1" by simp
  have h6: "\<bar>- 1 :: int\<bar> + \<bar>1\<bar> + \<bar>0\<bar> \<ge> 2 * 1" by simp
  from reflection_always_assigned [OF h1 h2 h3 h4 h5 h6] show ?thesis
    using h1 h2 h6 by simp
qed

subsection \<open>The program index\<close>

lemma sdiv2_even: "even (a :: int) \<Longrightarrow> 2 * (a sdiv 2) = a"
  by (simp add: signed_divide_int_eq_divide_int)

lemma even_consecutive: "even (rings * (rings - 1 :: int))"
  by simp

lemma even_z_abs: "even (z * (\<bar>z\<bar> + 1 :: int))"
  by (cases "even z") simp_all

lemma twice_axial_to_index:
  assumes "\<bar>p\<bar> + \<bar>q\<bar> + \<bar>- p - q\<bar> \<le> 2 * (rings - 1)"
  shows "2 * axial_to_index p q rings
     = 3 * rings * (rings - 1) + 2 * q - 2 * (- p - q) * (rings * 2 - 1) + (- p - q) * (\<bar>- p - q\<bar> + 1)"
proof -
  have a: "2 * ((3 * rings * (rings - 1)) sdiv 2) = 3 * rings * (rings - 1)"
    by (rule sdiv2_even) (simp add: mult.assoc)
  have b: "2 * (((- p - q) * (\<bar>- p - q\<bar> + 1)) sdiv 2) = (- p - q) * (\<bar>- p - q\<bar> + 1)"
    by (rule sdiv2_even) (rule even_z_abs)
  have "axial_to_index p q rings = (3 * rings * (rings - 1)) sdiv 2 + q + - (- p - q) * (rings * 2 - 1)
      + ((- p - q) * (\<bar>- p - q\<bar> + 1)) sdiv 2"
    using assms by (simp add: axial_to_index_def Let_def)
  then have "2 * axial_to_index p q rings = 2 * ((3 * rings * (rings - 1)) sdiv 2) + 2 * q
      - 2 * (- p - q) * (rings * 2 - 1) + 2 * (((- p - q) * (\<bar>- p - q\<bar> + 1)) sdiv 2)"
    by (simp add: algebra_simps)
  then show ?thesis using a b by simp
qed

lemma index_bounds_aux:
  fixes r y z :: int
  assumes z: "0 \<le> z" "z \<le> r" and y: "- r \<le> y" "y \<le> r - z"
  shows "0 \<le> 3 * r * (r + 1) + 2 * y - z * (4 * r + 1 - z)"
    and "3 * r * (r + 1) + 2 * y - z * (4 * r + 1 - z) \<le> 6 * r * (r + 1)"
    and "0 \<le> 3 * r * (r + 1) - 2 * y + z * (4 * r + 1 - z)"
    and "3 * r * (r + 1) - 2 * y + z * (4 * r + 1 - z) \<le> 6 * r * (r + 1)"
proof -
  have k1: "0 \<le> (r - z) * (3 * r + 1 - z)" using z by simp
  have k2: "0 \<le> z * (4 * r + 1 - z)" using z by simp
  have k3: "0 \<le> r * r" by simp
  have e1: "(r - z) * (3 * r + 1 - z) = 3 * r * r + r - z * (4 * r + 1 - z)"
    by (simp add: algebra_simps)
  have e2: "3 * r * (r + 1) = 3 * r * r + 3 * r" "6 * r * (r + 1) = 6 * r * r + 6 * r"
    by (simp_all add: algebra_simps)
  show "0 \<le> 3 * r * (r + 1) + 2 * y - z * (4 * r + 1 - z)"
    using k1 y unfolding e1 e2 by linarith
  show "3 * r * (r + 1) + 2 * y - z * (4 * r + 1 - z) \<le> 6 * r * (r + 1)"
    using k2 k3 y z unfolding e2 by linarith
  show "0 \<le> 3 * r * (r + 1) - 2 * y + z * (4 * r + 1 - z)"
    using k2 k3 y z unfolding e2 by linarith
  show "3 * r * (r + 1) - 2 * y + z * (4 * r + 1 - z) \<le> 6 * r * (r + 1)"
    using k1 y z unfolding e1 e2 by linarith
qed

lemma axial_to_index_inside:
  assumes R: "1 \<le> rings" and inside: "\<bar>p\<bar> + \<bar>q\<bar> + \<bar>p + q\<bar> \<le> 2 * (rings - 1)"
  shows "0 \<le> axial_to_index p q rings \<and> axial_to_index p q rings \<le> hex_size rings - 1"
proof -
  define r where "r = rings - 1"
  define z where "z = - p - q"
  have rings: "rings = r + 1" by (simp add: r_def)
  have ins: "\<bar>p\<bar> + \<bar>q\<bar> + \<bar>- p - q\<bar> \<le> 2 * (rings - 1)" using inside by (simp add: abs_minus_commute) 
  have tw: "2 * axial_to_index p q rings
     = 3 * r * (r + 1) + 2 * q - 2 * z * (2 * r + 1) + z * (\<bar>z\<bar> + 1)"
    using twice_axial_to_index [OF ins] by (simp add: rings z_def algebra_simps)
  have hs: "2 * (hex_size rings - 1) = 6 * r * (r + 1)"
    by (simp add: hex_size_def rings algebra_simps)
  have bnd: "\<bar>p\<bar> + \<bar>q\<bar> + \<bar>z\<bar> \<le> 2 * r" using ins by (simp add: z_def r_def)
  show ?thesis
  proof (cases "0 \<le> z")
    case True
    have zr: "z \<le> r" using bnd True z_def by linarith
    have y1: "- r \<le> q" using bnd True z_def by linarith
    have y2: "q \<le> r - z" using bnd True z_def by linarith
    have eq: "2 * axial_to_index p q rings = 3 * r * (r + 1) + 2 * q - z * (4 * r + 1 - z)"
      using True by (simp add: tw algebra_simps)
    have "0 \<le> 2 * axial_to_index p q rings"
      and "2 * axial_to_index p q rings \<le> 2 * (hex_size rings - 1)"
      unfolding eq hs by (rule index_bounds_aux(1,2) [OF True zr y1 y2])+
    then show ?thesis by simp
  next
    case False
    define w where "w = - z"
    have w: "0 \<le> w" "w \<le> r" using False bnd z_def by (simp_all add: w_def)
    have y1: "- r \<le> - q" using bnd False z_def by linarith
    have y2: "- q \<le> r - w" using bnd False z_def w_def by linarith
    have eq: "2 * axial_to_index p q rings = 3 * r * (r + 1) - 2 * (- q) + w * (4 * r + 1 - w)"
      using False by (simp add: tw w_def algebra_simps)
    have "0 \<le> 2 * axial_to_index p q rings"
      and "2 * axial_to_index p q rings \<le> 2 * (hex_size rings - 1)"
      unfolding eq hs by (rule index_bounds_aux(3,4) [OF w y1 y2])+
    then show ?thesis by simp
  qed
qed

lemma axial_to_index_outside:
  "\<not> \<bar>p\<bar> + \<bar>q\<bar> + \<bar>p + q\<bar> \<le> 2 * (rings - 1) \<Longrightarrow> axial_to_index p q rings = - 1"
proof -
  assume a: "\<not> \<bar>p\<bar> + \<bar>q\<bar> + \<bar>p + q\<bar> \<le> 2 * (rings - 1)"
  have "\<bar>- p - q\<bar> = \<bar>p + q\<bar>" by simp
  with a show ?thesis by (simp add: axial_to_index_def Let_def)
qed

text \<open>
  C6. For every axial coordinate \<open>(p, q)\<close> and every ring count \<open>rings \<ge> 1\<close>,
  \<open>axial_to_index p q rings\<close> lies in \<open>0 .. hex_size rings - 1\<close> if and only if
  \<open>\<bar>p\<bar> + \<bar>q\<bar> + \<bar>p + q\<bar> \<le> 2 * (rings - 1)\<close>; outside that bound it is the sentinel \<open>- 1\<close>.
\<close>

theorem axial_to_index_range:
  assumes "1 \<le> rings"
  shows "((0 \<le> axial_to_index p q rings \<and> axial_to_index p q rings \<le> hex_size rings - 1)
            = (\<bar>p\<bar> + \<bar>q\<bar> + \<bar>p + q\<bar> \<le> 2 * (rings - 1)))
       \<and> (\<not> \<bar>p\<bar> + \<bar>q\<bar> + \<bar>p + q\<bar> \<le> 2 * (rings - 1) \<longrightarrow> axial_to_index p q rings = - 1)"
proof (cases "\<bar>p\<bar> + \<bar>q\<bar> + \<bar>p + q\<bar> \<le> 2 * (rings - 1)")
  case True
  with axial_to_index_inside [OF assms True] show ?thesis by simp
next
  case False
  then have "axial_to_index p q rings = - 1" by (rule axial_to_index_outside)
  with False show ?thesis by simp
qed

theorem axial_to_index_range_witness:
  "(1 :: int) \<le> 2
   \<and> 0 \<le> axial_to_index 1 (- 1) 2 \<and> axial_to_index 1 (- 1) 2 \<le> hex_size 2 - 1
   \<and> axial_to_index 2 (- 1) 2 = - 1"
proof -
  have h: "(1 :: int) \<le> 2" by simp
  from axial_to_index_range [OF h, of 1 "- 1"] axial_to_index_range [OF h, of 2 "- 1"]
  show ?thesis by simp
qed

subsection \<open>The memory index\<close>

lemma sdiv2_nonneg: "0 \<le> (a :: int) \<Longrightarrow> a sdiv 2 = a div 2"
  by (cases "a = 0") (simp_all add: signed_divide_int_def)

text \<open>The index of the coordinate at offset \<open>t\<close> of each of the six sextants of ring \<open>k\<close>.\<close>

lemma encode_sextant_0:
  fixes k t :: nat
  assumes "0 < k" "t < k"
  shows "axial_to_mem_index (- int t) (int t - int k) = 3 * k * (k - 1) + 1 + t"
proof -
  have "(\<bar>- int t\<bar> + \<bar>int t - int k\<bar> + \<bar>- (- int t) - (int t - int k)\<bar>) sdiv 2 = int k"
    using assms by (subst sdiv2_nonneg) simp_all
  then show ?thesis
    unfolding axial_to_mem_index_def Let_def using assms by simp
qed

lemma encode_sextant_1:
  fixes k t :: nat
  assumes "0 < k" "t < k"
  shows "axial_to_mem_index (- int k) (int t) = 3 * k * (k - 1) + 1 + k + t"
proof -
  have "(\<bar>- int k\<bar> + \<bar>int t\<bar> + \<bar>- (- int k) - (int t)\<bar>) sdiv 2 = int k"
    using assms by (subst sdiv2_nonneg) simp_all
  then show ?thesis
    unfolding axial_to_mem_index_def Let_def using assms by simp
qed

lemma encode_sextant_2:
  fixes k t :: nat
  assumes "0 < k" "t < k"
  shows "axial_to_mem_index (int t - int k) (int k) = 3 * k * (k - 1) + 1 + 2 * k + t"
proof -
  have "(\<bar>int t - int k\<bar> + \<bar>int k\<bar> + \<bar>- (int t - int k) - (int k)\<bar>) sdiv 2 = int k"
    using assms by (subst sdiv2_nonneg) simp_all
  then show ?thesis
    unfolding axial_to_mem_index_def Let_def using assms by simp
qed

lemma encode_sextant_3:
  fixes k t :: nat
  assumes "0 < k" "t < k"
  shows "axial_to_mem_index (int t) (int k - int t) = 3 * k * (k - 1) + 1 + 3 * k + t"
proof -
  have "(\<bar>int t\<bar> + \<bar>int k - int t\<bar> + \<bar>- (int t) - (int k - int t)\<bar>) sdiv 2 = int k"
    using assms by (subst sdiv2_nonneg) simp_all
  then show ?thesis
    unfolding axial_to_mem_index_def Let_def using assms by simp
qed

lemma encode_sextant_4:
  fixes k t :: nat
  assumes "0 < k" "t < k"
  shows "axial_to_mem_index (int k) (- int t) = 3 * k * (k - 1) + 1 + 4 * k + t"
proof -
  have "(\<bar>int k\<bar> + \<bar>- int t\<bar> + \<bar>- (int k) - (- int t)\<bar>) sdiv 2 = int k"
    using assms by (subst sdiv2_nonneg) simp_all
  then show ?thesis
    unfolding axial_to_mem_index_def Let_def using assms by simp
qed

lemma encode_sextant_5:
  fixes k t :: nat
  assumes "0 < k" "t < k"
  shows "axial_to_mem_index (int k - int t) (- int k) = 3 * k * (k - 1) + 1 + 5 * k + t"
proof -
  have "(\<bar>int k - int t\<bar> + \<bar>- int k\<bar> + \<bar>- (int k - int t) - (- int k)\<bar>) sdiv 2 = int k"
    using assms by (subst sdiv2_nonneg) simp_all
  then show ?thesis
    unfolding axial_to_mem_index_def Let_def using assms by simp
qed

lemmas encode_sextant = encode_sextant_0 encode_sextant_1 encode_sextant_2
  encode_sextant_3 encode_sextant_4 encode_sextant_5

text \<open>Every coordinate other than the origin is at some offset of some sextant of some ring.\<close>

lemma coordinate_sextant:
  fixes p q :: int
  assumes "(p, q) \<noteq> (0, 0)"
  obtains k t :: nat where "0 < k" "t < k"
    "(p, q) = (- int t, int t - int k) \<or> (p, q) = (- int k, int t)
     \<or> (p, q) = (int t - int k, int k) \<or> (p, q) = (int t, int k - int t)
     \<or> (p, q) = (int k, - int t) \<or> (p, q) = (int k - int t, - int k)"
proof -
  consider "p \<le> 0 \<and> q < 0" | "q \<ge> 0 \<and> - p - q > 0" | "- p - q \<le> 0 \<and> p < 0"
    | "p \<ge> 0 \<and> q > 0" | "q \<le> 0 \<and> - p - q < 0" | "- p - q \<ge> 0 \<and> p > 0"
    using assms by auto linarith+
  then show ?thesis
  proof cases
    case 1
    then show ?thesis using that [of "nat (- p - q)" "nat (- p)"] by simp
  next
    case 2
    then show ?thesis using that [of "nat (- p)" "nat q"] by simp
  next
    case 3
    then show ?thesis using that [of "nat q" "nat (p + q)"] by simp
  next
    case 4
    then show ?thesis using that [of "nat (p + q)" "nat p"] by simp
  next
    case 5
    then show ?thesis using that [of "nat p" "nat (- q)"] by simp
  next
    case 6
    then show ?thesis using that [of "nat (- q)" "nat (- p - q)"] by simp
  qed
qed

lemma ring_base_mono:
  fixes a b :: nat
  assumes "a \<le> b"
  shows "3 * a * (a - 1) + 1 \<le> 3 * b * (b - 1) + 1"
proof -
  have "a * (a - 1) \<le> b * (b - 1)" using assms by (intro mult_le_mono) simp_all
  then show ?thesis by (simp add: mult.assoc)
qed

lemma ring_base_Suc:
  fixes k :: nat
  shows "3 * (k + 1) * (k + 1 - 1) + 1 = 3 * k * (k - 1) + 1 + 6 * k"
  by (cases k) (simp_all add: algebra_simps)

lemma index_ring_bounds:
  "i < 3 * (index_ring i + 1) * index_ring i + 1
   \<and> (0 < index_ring i \<longrightarrow> 3 * index_ring i * (index_ring i - 1) + 1 \<le> i)"
proof (induction i)
  case 0
  show ?case by simp
next
  case (Suc n)
  define k where "k = index_ring n"
  have IH: "n < 3 * (k + 1) * k + 1" "0 < k \<longrightarrow> 3 * k * (k - 1) + 1 \<le> n"
    using Suc by (simp_all add: k_def)
  show ?case
  proof (cases "3 * (k + 1) * k + 1 \<le> Suc n")
    case True
    then have r: "index_ring (Suc n) = k + 1" by (simp add: k_def)
    have "Suc n = 3 * (k + 1) * k + 1" using True IH(1) by simp
    then show ?thesis unfolding r by (simp add: algebra_simps)
  next
    case False
    then have r: "index_ring (Suc n) = k" by (simp add: k_def)
    show ?thesis unfolding r using False IH(2) by auto
  qed
qed

lemma index_ring_unique:
  fixes k :: nat
  assumes "0 < k" "3 * k * (k - 1) + 1 \<le> i" "i < 3 * k * (k - 1) + 1 + 6 * k"
  shows "index_ring i = k"
proof -
  define j where "j = index_ring i"
  have b: "i < 3 * (j + 1) * j + 1" "0 < j \<longrightarrow> 3 * j * (j - 1) + 1 \<le> i"
    using index_ring_bounds [of i] by (simp_all add: j_def)
  have up: "3 * (j + 1) * j + 1 = 3 * (j + 1) * (j + 1 - 1) + 1" by simp
  have "\<not> j < k"
  proof
    assume "j < k"
    then have "j + 1 \<le> k" by simp
    from ring_base_mono [OF this] have "3 * (j + 1) * j + 1 \<le> 3 * k * (k - 1) + 1" by simp
    with b(1) assms(2) show False by simp
  qed
  moreover have "\<not> k < j"
  proof
    assume kj: "k < j"
    then have "k + 1 \<le> j" by simp
    from ring_base_mono [OF this] have "3 * k * (k - 1) + 1 + 6 * k \<le> 3 * j * (j - 1) + 1"
      by (simp only: ring_base_Suc)
    moreover have "3 * j * (j - 1) + 1 \<le> i" using b(2) kj by simp
    ultimately show False using assms(3) by simp
  qed
  ultimately show ?thesis by (simp add: j_def)
qed

lemma index_ring_0: "index_ring i = 0 \<longleftrightarrow> i = 0"
proof
  assume "index_ring i = 0"
  with index_ring_bounds [of i] show "i = 0" by simp
next
  assume "i = 0" then show "index_ring i = 0" by simp
qed

text \<open>Decoding the index of offset \<open>t\<close> of sextant \<open>s\<close> in ring \<open>k\<close>.\<close>

lemma decode_sextant:
  fixes k t s :: nat
  assumes "0 < k" "t < k" "s < 6"
  shows "mem_index_to_axial (3 * k * (k - 1) + 1 + s * k + t) =
     (if s = 0 then (- int t, int t - int k)
      else if s = 1 then (- int k, int t)
      else if s = 2 then (int t - int k, int k)
      else if s = 3 then (int t, int k - int t)
      else if s = 4 then (int k, - int t)
      else (int k - int t, - int k))"
proof -
  let ?i = "3 * k * (k - 1) + 1 + s * k + t"
  have "s * k + t < 6 * k"
  proof -
    have "s * k + t < s * k + k" using assms(2) by simp
    also have "\<dots> = (s + 1) * k" by simp
    also have "\<dots> \<le> 6 * k" using assms(3) by (intro mult_le_mono) simp_all
    finally show ?thesis .
  qed
  then have ring: "index_ring ?i = k"
    using assms(1) by (intro index_ring_unique) simp_all
  have off: "?i - (3 * k * (k - 1) + 1) = s * k + t" by simp
  have dv: "(s * k + t) div k = s" using assms by simp
  have md: "(s * k + t) mod k = t" using assms by simp
  show ?thesis
    unfolding mem_index_to_axial_def Let_def ring off dv md using assms(1) by simp
qed

lemma mem_index_round_trip: "mem_index_to_axial (axial_to_mem_index p q) = (p, q)"
proof (cases "(p, q) = (0, 0)")
  case True
  then show ?thesis by (simp add: axial_to_mem_index_def mem_index_to_axial_def)
next
  case False
  then obtain k t :: nat where kt: "0 < k" "t < k"
    and c: "(p, q) = (- int t, int t - int k) \<or> (p, q) = (- int k, int t)
     \<or> (p, q) = (int t - int k, int k) \<or> (p, q) = (int t, int k - int t)
     \<or> (p, q) = (int k, - int t) \<or> (p, q) = (int k - int t, - int k)"
    by (rule coordinate_sextant)
  note e = encode_sextant [OF kt]
  have d: "mem_index_to_axial (3 * k * (k - 1) + 1 + s * k + t) =
     (if s = 0 then (- int t, int t - int k)
      else if s = 1 then (- int k, int t)
      else if s = 2 then (int t - int k, int k)
      else if s = 3 then (int t, int k - int t)
      else if s = 4 then (int k, - int t)
      else (int k - int t, - int k))" if "s < 6" for s
    using decode_sextant [OF kt that] .
  from c consider "(p, q) = (- int t, int t - int k)" | "(p, q) = (- int k, int t)"
     | "(p, q) = (int t - int k, int k)" | "(p, q) = (int t, int k - int t)"
     | "(p, q) = (int k, - int t)" | "(p, q) = (int k - int t, - int k)" by blast
  then show ?thesis
  proof cases
    case 1 then show ?thesis using e(1) d [of 0] by simp
  next
    case 2 then show ?thesis using e(2) d [of 1] by simp
  next
    case 3 then show ?thesis using e(3) d [of 2] by simp
  next
    case 4 then show ?thesis using e(4) d [of 3] by simp
  next
    case 5 then show ?thesis using e(5) d [of 4] by simp
  next
    case 6 then show ?thesis using e(6) d [of 5] by simp
  qed
qed

lemma axial_round_trip:
  "axial_to_mem_index (fst (mem_index_to_axial i)) (snd (mem_index_to_axial i)) = i"
proof (cases "i = 0")
  case True
  then show ?thesis by (simp add: axial_to_mem_index_def mem_index_to_axial_def)
next
  case False
  define k where "k = index_ring i"
  have k: "0 < k" using False index_ring_0 [of i] by (simp add: k_def)
  have lo: "3 * k * (k - 1) + 1 \<le> i" using index_ring_bounds [of i] k by (simp add: k_def)
  have hi: "i < 3 * k * (k - 1) + 1 + 6 * k"
    using index_ring_bounds [of i] ring_base_Suc [of k] by (simp add: k_def)
  define off where "off = i - (3 * k * (k - 1) + 1)"
  define s where "s = off div k"
  define t where "t = off mod k"
  have off6: "off < 6 * k" using lo hi by (simp add: off_def)
  have t: "t < k" using k by (simp add: t_def)
  have s: "s < 6" using off6 k by (simp add: s_def less_mult_imp_div_less mult.commute)
  have i: "i = 3 * k * (k - 1) + 1 + s * k + t"
    using lo by (simp add: off_def s_def t_def)
  note e = encode_sextant [OF k t]
  from s consider "s = 0" | "s = 1" | "s = 2" | "s = 3" | "s = 4" | "s = 5" by linarith
  then show ?thesis
  proof cases
    case 1 then show ?thesis unfolding i decode_sextant [OF k t s] using e(1) by simp
  next
    case 2 then show ?thesis unfolding i decode_sextant [OF k t s] using e(2) by simp
  next
    case 3 then show ?thesis unfolding i decode_sextant [OF k t s] using e(3) by simp
  next
    case 4 then show ?thesis unfolding i decode_sextant [OF k t s] using e(4) by simp
  next
    case 5 then show ?thesis unfolding i decode_sextant [OF k t s] using e(5) by simp
  next
    case 6 then show ?thesis unfolding i decode_sextant [OF k t s] using e(6) by simp
  qed
qed

text \<open>
  C7. \<^verbatim>\<open>axial_to_mem_index\<close> is a bijection from the axial coordinates to the natural numbers:
  distinct coordinates have distinct indices, every natural number is the index of a
  coordinate, and recomposing a coordinate from the ring number and the offset within the
  sextant of an index inverts the map, in both directions.
\<close>

theorem axial_to_mem_index_bijection:
  "bij (\<lambda>(p, q). axial_to_mem_index p q)
   \<and> (\<forall>p q. mem_index_to_axial (axial_to_mem_index p q) = (p, q))
   \<and> (\<forall>i. axial_to_mem_index (fst (mem_index_to_axial i)) (snd (mem_index_to_axial i)) = i)"
proof -
  have "bij (\<lambda>(p, q). axial_to_mem_index p q)"
  proof (rule bij_betw_byWitness [where f' = mem_index_to_axial])
    show "\<forall>a\<in>UNIV. mem_index_to_axial (case a of (p, q) \<Rightarrow> axial_to_mem_index p q) = a"
      by (auto simp: mem_index_round_trip)
    show "\<forall>a'\<in>UNIV. (case mem_index_to_axial a' of (p, q) \<Rightarrow> axial_to_mem_index p q) = a'"
      using axial_round_trip by (auto simp: case_prod_beta)
  qed simp_all
  then show ?thesis by (simp add: mem_index_round_trip axial_round_trip)
qed

end
